theory Spec2Isabelle
  imports Main
begin

section \<open>JSON documents and the Python operations the code applies to them\<close>

text \<open>
  Object data and schemas are JSON documents held as Python values: \<open>None\<close>, booleans,
  integers, strings, lists and string-keyed dictionaries. A dictionary is an association
  list in insertion order (Python dictionaries iterate in that order and have no duplicate
  keys). JSON floating-point numbers are left out.
\<close>

datatype json = JNull | JBool bool | JInt int | JStr string
  | JList "json list" | JDict "(string \<times> json) list"

text \<open>
  Every \<open>raise\<close> of the code is a value of this type. The first four are the errors of
  \<open>logic/errors.py\<close> named in \<open>objects.py\<close>; \<open>KeyError\<close>, \<open>IndexError\<close>,
  \<open>TypeError\<close> and \<open>AttributeError\<close> are Python's own; \<open>IntegrityError\<close> is
  \<open>sqlalchemy.exc.IntegrityError\<close>; \<open>SMTPRecipientsRefused\<close> is smtplib's, and
  \<open>OtherException\<close> stands for any other exception of the mail transport.
\<close>

datatype error =
    ActionDoesNotExistError
  | UserDoesNotExistError
  | ObjectDoesNotExistError
  | ObjectVersionDoesNotExistError
  | IntegrityError
  | KeyError
  | IndexError
  | TypeError
  | AttributeError
  | SMTPRecipientsRefused
  | OtherException string

text \<open>
  Python's \<open>==\<close> on JSON values: \<open>True == 1\<close> and \<open>False == 0\<close> hold (bool is a
  subclass of int), lists compare element by element, dictionaries compare as mappings
  (the order of the keys does not matter), values of different kinds differ.
\<close>

fun py_eq :: "json \<Rightarrow> json \<Rightarrow> bool" where
  "py_eq JNull JNull = True"
| "py_eq (JBool a) (JBool b) = (a = b)"
| "py_eq (JBool a) (JInt j) = ((if a then 1 else 0) = j)"
| "py_eq (JInt i) (JBool b) = (i = (if b then 1 else 0))"
| "py_eq (JInt i) (JInt j) = (i = j)"
| "py_eq (JStr s) (JStr t) = (s = t)"
| "py_eq (JList xs) (JList ys) = list_all2 py_eq xs ys"
| "py_eq (JDict a) (JDict b) =
     (length a = length b \<and>
      list_all (\<lambda>(k, v). case map_of b k of None \<Rightarrow> False | Some w \<Rightarrow> py_eq v w) a)"
| "py_eq _ _ = False"

text \<open>
  \<open>xs[i]\<close> on a Python sequence: a negative index counts from the end, an index out of
  range raises \<open>IndexError\<close>.
\<close>

definition py_index :: "'a list \<Rightarrow> int \<Rightarrow> error + 'a" where
  "py_index xs i =
     (if 0 \<le> i \<and> i < int (length xs) then Inr (xs ! nat i)
      else if i < 0 \<and> - int (length xs) \<le> i then Inr (xs ! nat (int (length xs) + i))
      else Inl IndexError)"

text \<open>
  \<open>x[k]\<close>: a dictionary raises \<open>KeyError\<close> for a key it does not hold (its keys are
  strings, so for every hashable key that is not a string too) and \<open>TypeError\<close> for an
  unhashable key; a list or a string takes an integer (or boolean) index; anything else
  raises \<open>TypeError\<close>.
\<close>

fun py_getitem :: "json \<Rightarrow> json \<Rightarrow> error + json" where
  "py_getitem (JDict kvs) (JStr k) =
     (case map_of kvs k of None \<Rightarrow> Inl KeyError | Some v \<Rightarrow> Inr v)"
| "py_getitem (JDict kvs) (JList _) = Inl TypeError"
| "py_getitem (JDict kvs) (JDict _) = Inl TypeError"
| "py_getitem (JDict kvs) _ = Inl KeyError"
| "py_getitem (JList xs) (JInt i) = py_index xs i"
| "py_getitem (JList xs) (JBool b) = py_index xs (if b then 1 else 0)"
| "py_getitem (JStr s) (JInt i) = map_sum id (\<lambda>c. JStr [c]) (py_index s i)"
| "py_getitem (JStr s) (JBool b) =
     map_sum id (\<lambda>c. JStr [c]) (py_index s (if b then 1 else 0))"
| "py_getitem _ _ = Inl TypeError"

fun starts_with :: "'a list \<Rightarrow> 'a list \<Rightarrow> bool" where
  "starts_with s [] = True"
| "starts_with [] (c # t) = False"
| "starts_with (a # s) (c # t) = (a = c \<and> starts_with s t)"

fun is_substring :: "'a list \<Rightarrow> 'a list \<Rightarrow> bool" where
  "is_substring t [] = (t = [])"
| "is_substring t (a # s) = (starts_with (a # s) t \<or> is_substring t s)"

text \<open>
  \<open>k in x\<close>: key membership for a dictionary, element membership (by \<open>==\<close>) for a
  list, substring test for a string; \<open>TypeError\<close> otherwise.
\<close>

fun py_contains :: "json \<Rightarrow> json \<Rightarrow> error + bool" where
  "py_contains (JDict kvs) (JStr k) = Inr (k \<in> set (map fst kvs))"
| "py_contains (JDict kvs) (JList _) = Inl TypeError"
| "py_contains (JDict kvs) (JDict _) = Inl TypeError"
| "py_contains (JDict kvs) _ = Inr False"
| "py_contains (JList xs) x = Inr (list_ex (\<lambda>e. py_eq e x) xs)"
| "py_contains (JStr s) (JStr t) = Inr (is_substring t s)"
| "py_contains _ _ = Inl TypeError"

text \<open>
  \<open>for e in x\<close>: the keys of a dictionary, the elements of a list, the characters of a
  string; \<open>TypeError\<close> for a value that is not iterable.
\<close>

fun py_iter :: "json \<Rightarrow> error + json list" where
  "py_iter (JDict kvs) = Inr (map (\<lambda>(k, v). JStr k) kvs)"
| "py_iter (JList xs) = Inr xs"
| "py_iter (JStr s) = Inr (map (\<lambda>c. JStr [c]) s)"
| "py_iter _ = Inl TypeError"

subsection \<open>Subscripting yields a smaller value\<close>

lemma size_map_of:
  "map_of kvs k = Some v \<Longrightarrow> size v < Suc (size_list (size_prod (\<lambda>x. 0) size) kvs)"
  by (induction kvs) (auto split: if_splits)

lemma size_nth: "i < length xs \<Longrightarrow> size (xs ! i) < Suc (size_list size xs)"
proof (induction xs arbitrary: i)
  case Nil
  then show ?case by simp
next
  case (Cons a xs)
  show ?case
  proof (cases i)
    case 0
    then show ?thesis by simp
  next
    case (Suc j)
    with Cons.prems have "j < length xs" by simp
    from Cons.IH [OF this] show ?thesis using Suc by simp
  qed
qed

lemma py_index_Inr: "py_index xs i = Inr v \<Longrightarrow> \<exists>n < length xs. v = xs ! n"
proof -
  assume a: "py_index xs i = Inr v"
  show ?thesis
  proof (cases "0 \<le> i")
    case True
    with a have "i < int (length xs)" "v = xs ! nat i"
      by (auto simp: py_index_def split: if_splits)
    moreover from this True have "nat i < length xs" by linarith
    ultimately show ?thesis by blast
  next
    case False
    with a have "- int (length xs) \<le> i" "v = xs ! nat (int (length xs) + i)"
      by (auto simp: py_index_def split: if_splits)
    moreover from this False have "nat (int (length xs) + i) < length xs" by linarith
    ultimately show ?thesis by blast
  qed
qed

lemma py_getitem_size_le: "py_getitem x k = Inr v \<Longrightarrow> size v \<le> size x"
proof (cases x)
  case (JDict kvs)
  assume "py_getitem x k = Inr v"
  with JDict show ?thesis
    by (cases k) (auto split: option.splits dest!: size_map_of)
next
  case (JList xs)
  assume "py_getitem x k = Inr v"
  with JList obtain i where "py_index xs i = Inr v"
    by (cases k) auto
  from py_index_Inr [OF this] obtain n where "n < length xs" "v = xs ! n" by blast
  with size_nth [of n xs] JList show ?thesis by simp
next
  case (JStr s)
  assume "py_getitem x k = Inr v"
  with JStr show ?thesis
    by (cases k) (auto simp: map_sum_def split: sum.splits)
qed auto

lemma py_getitem_str_size: "py_getitem x (JStr k) = Inr v \<Longrightarrow> size v < size x"
  by (cases x) (auto split: option.splits dest!: size_map_of)

section \<open>The Schema-Reference Walker (\<open>_get_object_properties\<close>, objects.py 157-177)\<close>

text \<open>
  The generator \<open>iter_object_properties\<close> is materialised by \<open>list(...)\<close>, so an
  exception raised anywhere in the walk leaves \<open>_get_object_properties\<close>. \<open>collect\<close>
  chains the results of the inner loops in iteration order: the first error wins.
\<close>

fun collect :: "(error + 'a list) list \<Rightarrow> error + 'a list" where
  "collect [] = Inr []"
| "collect (Inl e # rs) = Inl e"
| "collect (Inr ys # rs) = (case collect rs of Inl e \<Rightarrow> Inl e | Inr zs \<Rightarrow> Inr (ys @ zs))"

type_synonym property = "json list \<times> json \<times> json"

function iter_object_properties :: "json list \<Rightarrow> json \<Rightarrow> json \<Rightarrow> error + property list" where
  "iter_object_properties previous_path sch dat =
     (case py_getitem sch (JStr ''type'') of
        Inl e \<Rightarrow> Inl e
      | Inr t \<Rightarrow>
          if py_eq t (JStr ''object'') then
            (case py_getitem sch (JStr ''properties'') of
               Inl e \<Rightarrow> Inl e
             | Inr props \<Rightarrow>
                 (case py_iter props of
                    Inl e \<Rightarrow> Inl e
                  | Inr names \<Rightarrow>
                      collect (map (\<lambda>property_name.
                        case py_contains dat property_name of
                          Inl e \<Rightarrow> Inl e
                        | Inr False \<Rightarrow> Inr []
                        | Inr True \<Rightarrow>
                            (case py_getitem props property_name of
                               Inl e \<Rightarrow> Inl e
                             | Inr sub_schema \<Rightarrow>
                                 (case py_getitem dat property_name of
                                    Inl e \<Rightarrow> Inl e
                                  | Inr sub_data \<Rightarrow>
                                      iter_object_properties (previous_path @ [property_name])
                                        sub_schema sub_data))) names)))
          else if py_eq t (JStr ''array'') then
            (case py_iter dat of
               Inl e \<Rightarrow> Inl e
             | Inr items \<Rightarrow>
                 collect (map (\<lambda>(index, item).
                   case py_getitem sch (JStr ''items'') of
                     Inl e \<Rightarrow> Inl e
                   | Inr item_schema \<Rightarrow>
                       iter_object_properties (previous_path @ [JInt (int index)])
                         item_schema item) (enumerate 0 items)))
          else Inr [(previous_path, sch, dat)])"
  by pat_completeness auto
termination
proof (relation "measure (\<lambda>(p, s, d). size s)", goal_cases)
  case 1
  show ?case by simp
next
  case (2 previous_path sch dat t props names property_name b sub_schema sub_data)
  from 2(3) have "size props < size sch" by (rule py_getitem_str_size)
  moreover from 2(8) have "size sub_schema \<le> size props" by (rule py_getitem_size_le)
  ultimately show ?case by simp
next
  case (3 previous_path sch dat t items x index item item_schema)
  from 3(7) have "size item_schema < size sch" by (rule py_getitem_str_size)
  then show ?case by simp
qed

section \<open>Objects, actions and the state the module works on\<close>

text \<open>
  One row of the versioned object table. The class \<open>Object\<close> of \<open>models\<close> is not
  among the sources; the record has the attributes \<open>objects.py\<close> reads
  (\<open>object.object_id\<close>, \<open>object.version_id\<close>, \<open>object.action_id\<close>,
  \<open>object.data\<close>, \<open>object.schema\<close>) and the user who wrote the version.
\<close>

record Object =
  object_id :: int
  version_id :: int
  action_id :: int
  data :: json
  schema :: json
  user_id :: int

text \<open>Line 177: \<open>list(iter_object_properties([], object.schema, object.data))\<close>.\<close>

definition get_object_properties :: "Object \<Rightarrow> error + property list" where
  "get_object_properties ob = iter_object_properties [] (schema ob) (data ob)"

text \<open>
  Modelled from the spec: the enumeration \<open>ActionType\<close> and the class \<open>Action\<close> of
  \<open>models\<close>, which are not among the sources. The spec gives an action a category
  ("measurement vs. sample", an enum including \<open>MEASUREMENT\<close>) and a schema.
\<close>

datatype ActionType = SAMPLE_CREATION | MEASUREMENT

record Action =
  action_type :: ActionType
  action_schema :: json

text \<open>
  Modelled from the spec: the object log and the user log (\<open>logic/object_log.py\<close>,
  \<open>logic/user_log.py\<close>, not among the sources) are append-only event sinks with the
  operations \<open>create_object\<close>, \<open>edit_object\<close>, \<open>restore_object_version\<close> and
  \<open>use_object_in_measurement\<close>. An entry keeps the keyword arguments of the call, in the
  order given in the comments.
\<close>

datatype object_log_entry =
    OL_CREATE_OBJECT int int  \<comment> \<open>object_id, user_id\<close>
  | OL_EDIT_OBJECT int int int  \<comment> \<open>object_id, user_id, version_id\<close>
  | OL_RESTORE_OBJECT_VERSION int int int int
      \<comment> \<open>object_id, user_id, restored_version_id, version_id\<close>
  | OL_USE_OBJECT_IN_MEASUREMENT json int int
      \<comment> \<open>object_id (of the referenced object), user_id, measurement_id\<close>

datatype user_log_entry =
    UL_CREATE_OBJECT int int  \<comment> \<open>user_id, object_id\<close>
  | UL_EDIT_OBJECT int int int  \<comment> \<open>user_id, object_id, version_id\<close>
  | UL_RESTORE_OBJECT_VERSION int int int int
      \<comment> \<open>user_id, object_id, restored_version_id, version_id\<close>

text \<open>
  Everything the functions of \<open>objects.py\<close> read or write: the object table, the
  actions and users they look up, both logs, and the objects whose initial permissions
  were set. A function that raises returns \<open>Inl\<close> together with the state at that
  point: what was written before the exception stays written.
\<close>

record state =
  objects_table :: "Object list"
  actions_table :: "int \<rightharpoonup> Action"
  users_table :: "int set"
  object_log :: "object_log_entry list"
  user_log :: "user_log_entry list"
  initial_permissions :: "int list"

subsection \<open>The collaborators\<close>

text \<open>
  Modelled from the spec: \<open>actions.get_action\<close> (\<open>logic/actions.py\<close> is not among the
  sources), "get_action(action_id) -> Action | fails ActionDoesNotExistError".
\<close>

definition get_action :: "int \<Rightarrow> state \<Rightarrow> error + Action" where
  "get_action aid st =
     (case actions_table st aid of None \<Rightarrow> Inl ActionDoesNotExistError | Some a \<Rightarrow> Inr a)"

text \<open>
  Modelled from the spec: \<open>users.get_user\<close> (\<open>logic/users.py\<close> is not among the
  sources), "get_user(user_id) -> User | fails UserDoesNotExistError". The caller discards
  the user; the identifier stands for it.
\<close>

definition get_user :: "int \<Rightarrow> state \<Rightarrow> error + int" where
  "get_user uid st = (if uid \<in> users_table st then Inr uid else Inl UserDoesNotExistError)"

text \<open>
  Modelled from the spec: the four operations of \<open>object_log\<close> and the three of
  \<open>user_log\<close> that \<open>objects.py\<close> calls (neither module is among the sources); each
  appends its entry to its log.
\<close>

definition object_log_create_object :: "int \<Rightarrow> int \<Rightarrow> state \<Rightarrow> state" where
  "object_log_create_object oid uid st =
     st\<lparr>object_log := object_log st @ [OL_CREATE_OBJECT oid uid]\<rparr>"

definition object_log_edit_object :: "int \<Rightarrow> int \<Rightarrow> int \<Rightarrow> state \<Rightarrow> state" where
  "object_log_edit_object oid uid vid st =
     st\<lparr>object_log := object_log st @ [OL_EDIT_OBJECT oid uid vid]\<rparr>"

definition object_log_restore_object_version ::
    "int \<Rightarrow> int \<Rightarrow> int \<Rightarrow> int \<Rightarrow> state \<Rightarrow> state" where
  "object_log_restore_object_version oid uid restored_vid vid st =
     st\<lparr>object_log := object_log st @ [OL_RESTORE_OBJECT_VERSION oid uid restored_vid vid]\<rparr>"

definition object_log_use_object_in_measurement ::
    "json \<Rightarrow> int \<Rightarrow> int \<Rightarrow> state \<Rightarrow> state" where
  "object_log_use_object_in_measurement oid uid measurement_id st =
     st\<lparr>object_log := object_log st @ [OL_USE_OBJECT_IN_MEASUREMENT oid uid measurement_id]\<rparr>"

definition user_log_create_object :: "int \<Rightarrow> int \<Rightarrow> state \<Rightarrow> state" where
  "user_log_create_object oid uid st =
     st\<lparr>user_log := user_log st @ [UL_CREATE_OBJECT uid oid]\<rparr>"

definition user_log_edit_object :: "int \<Rightarrow> int \<Rightarrow> int \<Rightarrow> state \<Rightarrow> state" where
  "user_log_edit_object uid oid vid st =
     st\<lparr>user_log := user_log st @ [UL_EDIT_OBJECT uid oid vid]\<rparr>"

definition user_log_restore_object_version ::
    "int \<Rightarrow> int \<Rightarrow> int \<Rightarrow> int \<Rightarrow> state \<Rightarrow> state" where
  "user_log_restore_object_version uid oid restored_vid vid st =
     st\<lparr>user_log := user_log st @ [UL_RESTORE_OBJECT_VERSION uid oid restored_vid vid]\<rparr>"

text \<open>
  Modelled from the spec: \<open>permissions.set_initial_permissions\<close>
  (\<open>logic/permissions.py\<close>, not among the sources), "called once at creation"; the
  state records for which object it was called.
\<close>

definition set_initial_permissions :: "Object \<Rightarrow> state \<Rightarrow> state" where
  "set_initial_permissions ob st =
     st\<lparr>initial_permissions := initial_permissions st @ [object_id ob]\<rparr>"

subsection \<open>The persistence layer\<close>

text \<open>
  The table abstraction \<open>Objects\<close> (\<open>models/objects.py\<close>) is not among the sources;
  its six operations used by \<open>objects.py\<close> are modelled from the spec, on a table that
  is the list of all rows in the order they were written.
\<close>

text \<open>
  Modelled from the spec: \<open>Objects.get_object_versions\<close>, the versions of an object
  "oldest to newest".
\<close>

definition Objects_get_object_versions :: "int \<Rightarrow> state \<Rightarrow> Object list" where
  "Objects_get_object_versions oid st =
     sort_key version_id (filter (\<lambda>r. object_id r = oid) (objects_table st))"

text \<open>
  Modelled from the spec: \<open>Objects.get_current_object\<close>, "the version with the maximum
  version_id for that object_id", \<open>None\<close> for an object without versions.
\<close>

definition Objects_get_current_object :: "int \<Rightarrow> state \<Rightarrow> Object option" where
  "Objects_get_current_object oid st =
     (let versions = Objects_get_object_versions oid st
      in if versions = [] then None else Some (last versions))"

text \<open>
  Modelled from the spec: \<open>Objects.get_object_version\<close>, the version of the object with
  the given number, \<open>None\<close> when there is none.
\<close>

definition Objects_get_object_version :: "int \<Rightarrow> int \<Rightarrow> state \<Rightarrow> Object option" where
  "Objects_get_object_version oid vid st =
     find (\<lambda>r. object_id r = oid \<and> version_id r = vid) (objects_table st)"

text \<open>
  Modelled from the spec: the schema a write stores. "Schema is passed as None to let the
  store resolve it from the action"; any other schema is stored as given. A write whose
  action does not exist is taken to violate the integrity of the table
  (\<open>IntegrityError\<close>).
\<close>

definition resolve_schema :: "json \<Rightarrow> int \<Rightarrow> state \<Rightarrow> error + json" where
  "resolve_schema sch aid st =
     (if sch \<noteq> JNull then Inr sch
      else case actions_table st aid of
             None \<Rightarrow> Inl IntegrityError
           | Some a \<Rightarrow> Inr (action_schema a))"

text \<open>
  Modelled from the spec: the identifier of a new object, "assigned at creation, never
  reused": one more than the greatest identifier in the table, starting at 1.
\<close>

definition fresh_object_id :: "Object list \<Rightarrow> int" where
  "fresh_object_id rows = fold max (map object_id rows) 0 + 1"

text \<open>
  Modelled from the spec: \<open>Objects.create_object\<close> "persists version 0 of a new object".
\<close>

definition Objects_create_object ::
    "json \<Rightarrow> json \<Rightarrow> int \<Rightarrow> int \<Rightarrow> state \<Rightarrow> (error + Object) \<times> state" where
  "Objects_create_object dat sch uid aid st =
     (case resolve_schema sch aid st of
        Inl e \<Rightarrow> (Inl e, st)
      | Inr s \<Rightarrow>
          let ob = \<lparr>object_id = fresh_object_id (objects_table st), version_id = 0,
                    action_id = aid, data = dat, schema = s, user_id = uid\<rparr>
          in (Inr ob, st\<lparr>objects_table := objects_table st @ [ob]\<rparr>))"

text \<open>
  Modelled from the spec: \<open>Objects.update_object\<close> "persists a new version
  (max_version+1)" of the object, for the action of its current version, and returns it;
  it returns \<open>None\<close> and writes nothing when the object does not exist.
\<close>

definition Objects_update_object ::
    "int \<Rightarrow> json \<Rightarrow> json \<Rightarrow> int \<Rightarrow> state \<Rightarrow> (error + Object option) \<times> state" where
  "Objects_update_object oid dat sch uid st =
     (case Objects_get_current_object oid st of
        None \<Rightarrow> (Inr None, st)
      | Some current \<Rightarrow>
          (case resolve_schema sch (action_id current) st of
             Inl e \<Rightarrow> (Inl e, st)
           | Inr s \<Rightarrow>
               let ob = \<lparr>object_id = oid, version_id = version_id current + 1,
                         action_id = action_id current, data = dat, schema = s,
                         user_id = uid\<rparr>
               in (Inr (Some ob), st\<lparr>objects_table := objects_table st @ [ob]\<rparr>)))"

section \<open>The Versioned Object Store (objects.py 21-136)\<close>

text \<open>\<open>get_object\<close>, lines 97-121; \<open>version_id=None\<close> is \<open>None\<close> here too.\<close>

definition get_object :: "int \<Rightarrow> int option \<Rightarrow> state \<Rightarrow> error + Object" where
  "get_object oid vid st =
     (case vid of
        None \<Rightarrow>
          (case Objects_get_current_object oid st of
             None \<Rightarrow> Inl ObjectDoesNotExistError
           | Some ob \<Rightarrow> Inr ob)
      | Some v \<Rightarrow>
          (case Objects_get_object_version oid v st of
             None \<Rightarrow>
               if Objects_get_current_object oid st = None then Inl ObjectDoesNotExistError
               else Inl ObjectVersionDoesNotExistError
           | Some ob \<Rightarrow> Inr ob))"

text \<open>\<open>get_object_versions\<close>, lines 124-136.\<close>

definition get_object_versions :: "int \<Rightarrow> state \<Rightarrow> error + Object list" where
  "get_object_versions oid st =
     (let object_versions = Objects_get_object_versions oid st
      in if object_versions = [] then Inl ObjectDoesNotExistError else Inr object_versions)"

section \<open>The Reference Tracker (\<open>_update_object_references\<close>, objects.py 180-209)\<close>

text \<open>Lines 200-201: \<open>for path_element in path: previous_data = previous_data[path_element]\<close>.\<close>

fun walk_path :: "json \<Rightarrow> json list \<Rightarrow> error + json" where
  "walk_path previous_data [] = Inr previous_data"
| "walk_path previous_data (path_element # path) =
     (case py_getitem previous_data path_element of
        Inl e \<Rightarrow> Inl e
      | Inr d \<Rightarrow> walk_path d path)"

text \<open>
  Lines 195-206, the value of \<open>previous_referenced_object_id\<close> when line 207 reads it.
  \<open>except (KeyError, IndexError): pass\<close> covers the walk along the path only; the
  \<open>else\<close> branch, which reads \<open>previous_data['object_id']\<close>, is outside it.
\<close>

definition previous_referenced_object_id ::
    "Object \<Rightarrow> json list \<Rightarrow> state \<Rightarrow> error + json" where
  "previous_referenced_object_id ob path st =
     (if version_id ob > 0 then
        (case get_object (object_id ob) (Some (version_id ob - 1)) st of
           Inl e \<Rightarrow> Inl e
         | Inr previous_object_version \<Rightarrow>
             (case walk_path (data previous_object_version) path of
                Inl e \<Rightarrow> if e = KeyError \<or> e = IndexError then Inr JNull else Inl e
              | Inr previous_data \<Rightarrow>
                  if previous_data = JNull then Inr JNull
                  else py_getitem previous_data (JStr ''object_id'')))
      else Inr JNull)"

text \<open>The body of the loop of line 192, for one property.\<close>

definition update_reference ::
    "Object \<Rightarrow> int \<Rightarrow> ActionType \<Rightarrow> property \<Rightarrow> state \<Rightarrow> (error + unit) \<times> state" where
  "update_reference ob uid atype prop st =
     (case prop of (path, sch, dat) \<Rightarrow>
        (case py_getitem sch (JStr ''type'') of
           Inl e \<Rightarrow> (Inl e, st)
         | Inr t \<Rightarrow>
             if \<not> py_eq t (JStr ''sample'') \<or> dat = JNull then (Inr (), st)
             else
               (case py_getitem dat (JStr ''object_id'') of
                  Inl e \<Rightarrow> (Inl e, st)
                | Inr referenced_object_id \<Rightarrow>
                    if referenced_object_id = JNull then (Inr (), st)
                    else
                      (case previous_referenced_object_id ob path st of
                         Inl e \<Rightarrow> (Inl e, st)
                       | Inr previous \<Rightarrow>
                           if \<not> py_eq referenced_object_id previous then
                             if atype = MEASUREMENT then
                               (Inr (), object_log_use_object_in_measurement
                                          referenced_object_id uid (object_id ob) st)
                             else (Inr (), st)
                           else (Inr (), st)))))"

fun update_references_loop ::
    "Object \<Rightarrow> int \<Rightarrow> ActionType \<Rightarrow> property list \<Rightarrow> state \<Rightarrow> (error + unit) \<times> state" where
  "update_references_loop ob uid atype [] st = (Inr (), st)"
| "update_references_loop ob uid atype (prop # props) st =
     (case update_reference ob uid atype prop st of
        (Inl e, st') \<Rightarrow> (Inl e, st')
      | (Inr _, st') \<Rightarrow> update_references_loop ob uid atype props st')"

definition update_object_references :: "Object \<Rightarrow> int \<Rightarrow> state \<Rightarrow> (error + unit) \<times> state" where
  "update_object_references ob uid st =
     (case get_action (action_id ob) st of
        Inl e \<Rightarrow> (Inl e, st)
      | Inr action \<Rightarrow>
          (case get_object_properties ob of
             Inl e \<Rightarrow> (Inl e, st)
           | Inr props \<Rightarrow> update_references_loop ob uid (action_type action) props st))"

section \<open>Creating, updating and restoring (objects.py 21-94)\<close>

text \<open>
  \<open>create_object\<close>, lines 21-45. \<open>except sqlalchemy.exc.IntegrityError: raise\<close>
  re-raises what \<open>Objects.create_object\<close> raised.
\<close>

definition create_object :: "int \<Rightarrow> json \<Rightarrow> int \<Rightarrow> state \<Rightarrow> (error + Object) \<times> state" where
  "create_object aid dat uid st =
     (case get_action aid st of
        Inl e \<Rightarrow> (Inl e, st)
      | Inr _ \<Rightarrow>
          (case get_user uid st of
             Inl e \<Rightarrow> (Inl e, st)
           | Inr _ \<Rightarrow>
               (case Objects_create_object dat JNull uid aid st of
                  (Inl e, st1) \<Rightarrow> (Inl e, st1)
                | (Inr ob, st1) \<Rightarrow>
                    let st2 = object_log_create_object (object_id ob) uid st1;
                        st3 = user_log_create_object (object_id ob) uid st2
                    in (case update_object_references ob uid st3 of
                          (Inl e, st4) \<Rightarrow> (Inl e, st4)
                        | (Inr _, st4) \<Rightarrow> (Inr ob, set_initial_permissions ob st4)))))"

text \<open>\<open>update_object\<close>, lines 48-66.\<close>

definition update_object :: "int \<Rightarrow> json \<Rightarrow> int \<Rightarrow> state \<Rightarrow> (error + unit) \<times> state" where
  "update_object oid dat uid st =
     (case Objects_update_object oid dat JNull uid st of
        (Inl e, st1) \<Rightarrow> (Inl e, st1)
      | (Inr None, st1) \<Rightarrow> (Inl ObjectDoesNotExistError, st1)
      | (Inr (Some ob), st1) \<Rightarrow>
          let st2 = user_log_edit_object uid (object_id ob) (version_id ob) st1;
              st3 = object_log_edit_object (object_id ob) uid (version_id ob) st2
          in update_object_references ob uid st3)"

text \<open>
  \<open>restore_object_version\<close>, lines 69-94. The result of \<open>Objects.update_object\<close> is
  used without a test for \<open>None\<close>: \<open>object.version_id\<close> on \<open>None\<close> raises
  \<open>AttributeError\<close>.
\<close>

definition restore_object_version ::
    "int \<Rightarrow> int \<Rightarrow> int \<Rightarrow> state \<Rightarrow> (error + unit) \<times> state" where
  "restore_object_version oid vid uid st =
     (case get_object oid (Some vid) st of
        Inl e \<Rightarrow> (Inl e, st)
      | Inr ob \<Rightarrow>
          (case Objects_update_object oid (data ob) (schema ob) uid st of
             (Inl e, st1) \<Rightarrow> (Inl e, st1)
           | (Inr None, st1) \<Rightarrow> (Inl AttributeError, st1)
           | (Inr (Some new), st1) \<Rightarrow>
               let st2 = user_log_restore_object_version uid oid vid (version_id new) st1;
                   st3 = object_log_restore_object_version oid uid vid (version_id new) st2
               in (Inr (), st3)))"

text \<open>
  The states the module reaches: from any state with an empty object table (whatever
  actions and users there are), by calls of its three writing functions with any
  arguments, whether they return or raise.
\<close>

inductive reachable :: "state \<Rightarrow> bool" where
  init: "objects_table st = [] \<Longrightarrow> reachable st"
| create: "reachable st \<Longrightarrow> reachable (snd (create_object aid dat uid st))"
| update: "reachable st \<Longrightarrow> reachable (snd (update_object oid dat uid st))"
| restore: "reachable st \<Longrightarrow> reachable (snd (restore_object_version oid vid uid st))"

section \<open>The mail task (background\_tasks/send\_mail.py 32-45)\<close>

text \<open>
  \<open>flask_mail.Message\<close> with the five keyword arguments of the call. The mail transport
  \<open>mail.send\<close> and the application's configuration are parameters of the handler.
\<close>

record Message =
  subject :: json
  sender :: json
  recipients :: json
  body :: json
  html :: json

text \<open>The body of the \<open>try\<close>: the arguments are evaluated left to right, then sent.\<close>

definition send_mail_attempt ::
    "(Message \<Rightarrow> error + unit) \<Rightarrow> (string \<rightharpoonup> json) \<Rightarrow> json \<Rightarrow> error + bool" where
  "send_mail_attempt mail_send config dat =
     (case py_getitem dat (JStr ''subject'') of
        Inl e \<Rightarrow> Inl e
      | Inr subj \<Rightarrow>
     (case config ''MAIL_SENDER'' of
        None \<Rightarrow> Inl KeyError
      | Some sndr \<Rightarrow>
     (case py_getitem dat (JStr ''recipients'') of
        Inl e \<Rightarrow> Inl e
      | Inr rcpts \<Rightarrow>
     (case py_getitem dat (JStr ''text'') of
        Inl e \<Rightarrow> Inl e
      | Inr txt \<Rightarrow>
     (case py_getitem dat (JStr ''html'') of
        Inl e \<Rightarrow> Inl e
      | Inr htm \<Rightarrow>
     (case mail_send \<lparr>subject = subj, sender = sndr, recipients = rcpts,
                      body = txt, html = htm\<rparr> of
        Inl e \<Rightarrow> Inl e
      | Inr _ \<Rightarrow> Inr True))))))"

definition handle_send_mail_task ::
    "(Message \<Rightarrow> error + unit) \<Rightarrow> (string \<rightharpoonup> json) \<Rightarrow> json \<Rightarrow> error + bool" where
  "handle_send_mail_task mail_send config dat =
     (case send_mail_attempt mail_send config dat of
        Inl e \<Rightarrow> if e = SMTPRecipientsRefused then Inr False else Inl e
      | Inr r \<Rightarrow> Inr r)"

section \<open>Object shares (models/shares.py 24-29)\<close>

text \<open>
  The attributes \<open>__init__\<close> assigns. \<open>utc_datetime\<close> is \<open>None\<close> while the constructor
  has not assigned it; \<open>utcnow\<close> is what \<open>datetime.datetime.utcnow()\<close> returns at the
  call. Timestamps are integers.
\<close>

record ObjectShare =
  share_object_id :: int
  share_component_id :: int
  share_policy :: json
  share_utc_datetime :: "int option"

definition ObjectShare_init ::
    "int \<Rightarrow> int \<Rightarrow> int \<Rightarrow> json \<Rightarrow> int option \<Rightarrow> ObjectShare" where
  "ObjectShare_init utcnow oid cid pol utc_datetime =
     \<lparr>share_object_id = oid, share_component_id = cid, share_policy = pol,
      share_utc_datetime = (if utc_datetime = None then Some utcnow else None)\<rparr>"

section \<open>Notions the statements use\<close>

text \<open>The rows of one object, in the order they were written.\<close>

definition versions_of :: "int \<Rightarrow> state \<Rightarrow> Object list" where
  "versions_of oid st = filter (\<lambda>r. object_id r = oid) (objects_table st)"

text \<open>
  The invariant of the object table: the versions of every object, in the order they
  were written, are numbered 0, 1, 2, ...; every row's action exists and the row has its
  schema; the rows of one object have one action.
\<close>

definition store_invariant :: "state \<Rightarrow> bool" where
  "store_invariant st =
     ((\<forall>oid. map version_id (versions_of oid st) = map int [0..<length (versions_of oid st)]) \<and>
      (\<forall>r \<in> set (objects_table st).
         \<exists>a. actions_table st (action_id r) = Some a \<and> schema r = action_schema a) \<and>
      (\<forall>r \<in> set (objects_table st). \<forall>r' \<in> set (objects_table st).
         object_id r = object_id r' \<longrightarrow> action_id r = action_id r'))"

text \<open>The log entries written by \<open>object_log.use_object_in_measurement\<close>.\<close>

fun is_use_object_in_measurement :: "object_log_entry \<Rightarrow> bool" where
  "is_use_object_in_measurement (OL_USE_OBJECT_IN_MEASUREMENT _ _ _) = True"
| "is_use_object_in_measurement _ = False"

text \<open>
  The events the tracker is to emit for one property, in the words of the claim: one
  "used in measurement" event on the log of the referenced object when the property is
  of type \<open>sample\<close>, holds a reference that is not null, the action is a measurement and
  the reference differs from the previous one; none otherwise.
\<close>

definition reference_events ::
    "Object \<Rightarrow> int \<Rightarrow> ActionType \<Rightarrow> state \<Rightarrow> property \<Rightarrow> object_log_entry list" where
  "reference_events ob uid atype st leaf =
     (case leaf of (path, sch, dat) \<Rightarrow>
        if py_getitem sch (JStr ''type'') = Inr (JStr ''sample'') \<and> dat \<noteq> JNull then
          (case (py_getitem dat (JStr ''object_id''), previous_referenced_object_id ob path st) of
             (Inr current, Inr previous) \<Rightarrow>
               if atype = MEASUREMENT \<and> current \<noteq> JNull \<and> \<not> py_eq current previous
               then [OL_USE_OBJECT_IN_MEASUREMENT current uid (object_id ob)]
               else []
           | _ \<Rightarrow> [])
        else [])"

section \<open>Example data\<close>

definition example_sample_schema :: json where
  "example_sample_schema = JDict [(''type'', JStr ''sample'')]"

definition example_schema :: json where
  "example_schema =
     JDict [(''type'', JStr ''object''),
            (''properties'', JDict [(''a'', example_sample_schema)])]"

definition example_nested_schema :: json where
  "example_nested_schema =
     JDict [(''type'', JStr ''object''),
            (''properties'',
               JDict [(''a'', example_sample_schema),
                      (''b'', JDict [(''type'', JStr ''array''),
                                     (''items'', JDict [(''type'', JStr ''text'')])]),
                      (''c'', example_sample_schema)])]"

definition example_action :: Action where
  "example_action =
     \<lparr>action_type = MEASUREMENT,
      action_schema = JDict [(''type'', JStr ''object''),
        (''properties'', JDict [(''a'', JDict [(''type'', JStr ''sample'')])])]\<rparr>"

definition example_state :: state where
  "example_state =
     \<lparr>objects_table = [], actions_table = [1 \<mapsto> example_action], users_table = {1},
      object_log = [], user_log = [], initial_permissions = []\<rparr>"

definition example_row :: "int \<Rightarrow> int \<Rightarrow> json \<Rightarrow> Object" where
  "example_row oid vid dat =
     \<lparr>object_id = oid, version_id = vid, action_id = 1, data = dat, schema = JNull, user_id = 1\<rparr>"

definition example_store :: "Object list \<Rightarrow> state" where
  "example_store rows =
     \<lparr>objects_table = rows, actions_table = Map.empty, users_table = {},
      object_log = [], user_log = [], initial_permissions = []\<rparr>"

definition example_mail_data :: json where
  "example_mail_data =
     JDict [(''subject'', JStr ''Hello''), (''recipients'', JList [JStr ''someone@example.org'']),
            (''text'', JStr ''text body''), (''html'', JStr ''<p>html body</p>'')]"

definition example_message :: Message where
  "example_message =
     \<lparr>subject = JStr ''Hello'', sender = JStr ''sampledb@example.org'',
      recipients = JList [JStr ''someone@example.org''], body = JStr ''text body'',
      html = JStr ''<p>html body</p>''\<rparr>"

text \<open>
  A measurement whose one property \<open>a\<close> references a sample: created by user 1 with a
  reference to sample 5 (\<open>example_created\<close>), then updated to reference sample 7
  (\<open>example_updated\<close>).
\<close>

definition example_reference :: "int \<Rightarrow> json" where
  "example_reference n = JDict [(''a'', JDict [(''object_id'', JInt n)])]"

definition example_null_reference :: json where
  "example_null_reference = JDict [(''a'', JDict [(''object_id'', JNull)])]"

definition example_version :: "int \<Rightarrow> json \<Rightarrow> Object" where
  "example_version vid dat =
     \<lparr>object_id = 1, version_id = vid, action_id = 1, data = dat,
      schema = example_schema, user_id = 1\<rparr>"

definition example_created :: state where
  "example_created =
     \<lparr>objects_table = [example_version 0 (example_reference 5)],
      actions_table = [1 \<mapsto> example_action], users_table = {1},
      object_log = [OL_CREATE_OBJECT 1 1, OL_USE_OBJECT_IN_MEASUREMENT (JInt 5) 1 1],
      user_log = [UL_CREATE_OBJECT 1 1], initial_permissions = [1]\<rparr>"

definition example_updated :: state where
  "example_updated =
     \<lparr>objects_table = [example_version 0 (example_reference 5),
                       example_version 1 (example_reference 7)],
      actions_table = [1 \<mapsto> example_action], users_table = {1},
      object_log = [OL_CREATE_OBJECT 1 1, OL_USE_OBJECT_IN_MEASUREMENT (JInt 5) 1 1,
                    OL_EDIT_OBJECT 1 1 1, OL_USE_OBJECT_IN_MEASUREMENT (JInt 7) 1 1],
      user_log = [UL_CREATE_OBJECT 1 1, UL_EDIT_OBJECT 1 1 1], initial_permissions = [1]\<rparr>"

text \<open>
  The same object after the schema of its action was revised: version 0 still has the
  schema it was written with, version 1 and the action have the revised one.
\<close>

definition example_revised :: state where
  "example_revised =
     \<lparr>objects_table =
        [example_version 0 (example_reference 5),
         (example_version 1 (example_reference 7))\<lparr>schema := example_nested_schema\<rparr>],
      actions_table = [1 \<mapsto> example_action\<lparr>action_schema := example_nested_schema\<rparr>],
      users_table = {1}, object_log = [], user_log = [], initial_permissions = []\<rparr>"

section \<open>Auxiliary facts\<close>

lemma py_eq_JStr [simp]: "py_eq t (JStr s) = (t = JStr s)"
  by (cases t) auto

lemma set_sort_key_versions:
  "set (Objects_get_object_versions oid st) = {r \<in> set (objects_table st). object_id r = oid}"
  by (auto simp: Objects_get_object_versions_def)

lemma sorted_last_max: "sorted (map f xs) \<Longrightarrow> x \<in> set xs \<Longrightarrow> f x \<le> f (last xs)"
proof (induction xs)
  case Nil
  then show ?case by simp
next
  case (Cons a xs)
  then show ?case by (cases "xs = []") auto
qed

lemma current_object_None:
  "(Objects_get_current_object oid st = None) = (\<forall>r \<in> set (objects_table st). object_id r \<noteq> oid)"
proof -
  have "(Objects_get_object_versions oid st = []) = (set (Objects_get_object_versions oid st) = {})"
    by simp
  also have "\<dots> = (\<forall>r \<in> set (objects_table st). object_id r \<noteq> oid)"
    unfolding set_sort_key_versions by blast
  finally show ?thesis by (simp add: Objects_get_current_object_def Let_def)
qed

lemma current_object_Some:
  assumes "Objects_get_current_object oid st = Some ob"
  shows "ob \<in> set (objects_table st) \<and> object_id ob = oid \<and>
         (\<forall>r \<in> set (objects_table st). object_id r = oid \<longrightarrow> version_id r \<le> version_id ob)"
proof -
  let ?vs = "Objects_get_object_versions oid st"
  from assms have ne: "?vs \<noteq> []" and ob: "ob = last ?vs"
    by (auto simp: Objects_get_current_object_def Let_def split: if_splits)
  from ne have "last ?vs \<in> set ?vs" by simp
  with ob have mem: "ob \<in> {r \<in> set (objects_table st). object_id r = oid}"
    unfolding set_sort_key_versions by simp
  have srt: "sorted (map version_id ?vs)"
    by (simp add: Objects_get_object_versions_def)
  have "version_id r \<le> version_id ob" if "r \<in> set (objects_table st)" "object_id r = oid" for r
  proof -
    from that have "r \<in> set ?vs" unfolding set_sort_key_versions by simp
    from sorted_last_max [OF srt this] ob show ?thesis by simp
  qed
  with mem show ?thesis by blast
qed

lemma object_version_None:
  "(Objects_get_object_version oid v st = None) =
   (\<forall>r \<in> set (objects_table st). \<not> (object_id r = oid \<and> version_id r = v))"
  by (auto simp: Objects_get_object_version_def find_None_iff)

lemma object_version_Some:
  "Objects_get_object_version oid v st = Some ob \<Longrightarrow>
   ob \<in> set (objects_table st) \<and> object_id ob = oid \<and> version_id ob = v"
  by (auto simp: Objects_get_object_version_def find_Some_iff)

lemma current_after_append_top:
  assumes tab: "objects_table st' = objects_table (st::state) @ [new]"
    and top: "\<forall>r \<in> set (objects_table st). object_id r = object_id new \<longrightarrow>
                version_id r < version_id new"
  shows "Objects_get_current_object (object_id new) st' = Some new"
proof -
  let ?vs = "Objects_get_object_versions (object_id new) st'"
  have set: "set ?vs = {r \<in> set (objects_table st'). object_id r = object_id new}"
    by (rule set_sort_key_versions)
  then have mem: "new \<in> set ?vs" by (simp add: tab)
  then have ne: "?vs \<noteq> []" by auto
  then have l: "last ?vs \<in> set ?vs" by simp
  have srt: "sorted (map version_id ?vs)"
    by (simp add: Objects_get_object_versions_def)
  from sorted_last_max [OF srt mem] have le: "version_id new \<le> version_id (last ?vs)" .
  have "last ?vs = new"
  proof (rule ccontr)
    assume n: "last ?vs \<noteq> new"
    from l have "last ?vs \<in> set (objects_table st') \<and> object_id (last ?vs) = object_id new"
      unfolding set by simp
    with n have "last ?vs \<in> set (objects_table st) \<and> object_id (last ?vs) = object_id new"
      by (simp add: tab)
    with top have "version_id (last ?vs) < version_id new" by blast
    with le show False by simp
  qed
  with ne show ?thesis by (simp add: Objects_get_current_object_def)
qed

lemma collect_skip:
  "(\<And>x. x \<in> set xs \<Longrightarrow> \<not> P x \<Longrightarrow> f x = Inr []) \<Longrightarrow>
   (\<And>x. x \<in> set xs \<Longrightarrow> P x \<Longrightarrow> f x = g x) \<Longrightarrow>
   collect (map f xs) = collect (map g (filter P xs))"
proof (induction xs)
  case Nil
  then show ?case by simp
next
  case (Cons a xs)
  then have IH: "collect (map f xs) = collect (map g (filter P xs))" by simp
  show ?case
  proof (cases "P a")
    case True
    with Cons.prems(2) [of a] have "f a = g a" by simp
    with True IH show ?thesis by (cases "g a") simp_all
  next
    case False
    with Cons.prems(1) [of a] have "f a = Inr []" by simp
    with False IH show ?thesis by (simp split: sum.splits)
  qed
qed

lemma map_of_fst_the: "k \<in> fst ` set kvs \<Longrightarrow> map_of kvs k = Some (the (map_of kvs k))"
  by (cases "map_of kvs k") (auto simp: map_of_eq_None_iff)

lemma iter_object_properties_leaf:
  assumes "py_getitem sch (JStr ''type'') = Inr t" "t \<noteq> JStr ''object''" "t \<noteq> JStr ''array''"
  shows "iter_object_properties path sch dat = Inr [(path, sch, dat)]"
  using assms by simp

lemma iter_object_properties_object:
  assumes "py_getitem sch (JStr ''type'') = Inr (JStr ''object'')"
    and "py_getitem sch (JStr ''properties'') = Inr (JDict props)"
  shows "iter_object_properties path sch (JDict kvs) =
         collect (map (\<lambda>name. iter_object_properties (path @ [JStr name])
                                 (the (map_of props name)) (the (map_of kvs name)))
                    (filter (\<lambda>name. name \<in> fst ` set kvs) (map fst props)))"
proof -
  let ?body = "\<lambda>property_name.
     case py_contains (JDict kvs) property_name of
       Inl e \<Rightarrow> Inl e
     | Inr False \<Rightarrow> Inr []
     | Inr True \<Rightarrow>
         (case py_getitem (JDict props) property_name of
            Inl e \<Rightarrow> Inl e
          | Inr sub_schema \<Rightarrow>
              (case py_getitem (JDict kvs) property_name of
                 Inl e \<Rightarrow> Inl e
               | Inr sub_data \<Rightarrow>
                   iter_object_properties (path @ [property_name]) sub_schema sub_data))"
  have "iter_object_properties path sch (JDict kvs) =
        collect (map ?body (map (\<lambda>(k, v). JStr k) props))"
    by (subst iter_object_properties.simps)
      (simp only: assms sum.case py_eq_JStr simp_thms if_True py_iter.simps)
  also have "map ?body (map (\<lambda>(k, v). JStr k) props) = map (?body \<circ> JStr) (map fst props)"
    by (simp only: map_map comp_def case_prod_beta)
  also have "collect (map (?body \<circ> JStr) (map fst props)) =
     collect (map (\<lambda>name. iter_object_properties (path @ [JStr name])
                                 (the (map_of props name)) (the (map_of kvs name)))
                    (filter (\<lambda>name. name \<in> fst ` set kvs) (map fst props)))"
  proof (rule collect_skip)
    fix x assume "x \<in> set (map fst props)" "x \<notin> fst ` set kvs"
    then show "(?body \<circ> JStr) x = Inr []" by simp
  next
    fix x assume a: "x \<in> set (map fst props)" "x \<in> fst ` set kvs"
    from a(1) obtain v where v: "map_of props x = Some v"
      using map_of_fst_the [of x props] by auto
    from a(2) obtain w where w: "map_of kvs x = Some w"
      using map_of_fst_the [of x kvs] by auto
    from v w a(2) show "(?body \<circ> JStr) x =
      iter_object_properties (path @ [JStr x]) (the (map_of props x)) (the (map_of kvs x))"
      by (simp del: iter_object_properties.simps)
  qed
  finally show ?thesis .
qed

lemma iter_object_properties_array:
  assumes "py_getitem sch (JStr ''type'') = Inr (JStr ''array'')"
    and "py_getitem sch (JStr ''items'') = Inr item_schema"
  shows "iter_object_properties path sch (JList xs) =
         collect (map (\<lambda>(index, item).
                    iter_object_properties (path @ [JInt (int index)]) item_schema item)
                  (enumerate 0 xs))"
  using assms by (subst iter_object_properties.simps) simp

subsection \<open>Evaluating the examples\<close>

lemmas store_defs = Objects_get_object_versions_def Objects_get_current_object_def
  Objects_get_object_version_def resolve_schema_def fresh_object_id_def
  Objects_create_object_def Objects_update_object_def get_object_def get_action_def get_user_def
  Let_def

lemmas log_defs = object_log_create_object_def object_log_edit_object_def
  object_log_restore_object_version_def object_log_use_object_in_measurement_def
  user_log_create_object_def user_log_edit_object_def user_log_restore_object_version_def
  set_initial_permissions_def

lemmas tracker_defs = update_object_references_def update_reference_def
  previous_referenced_object_id_def get_object_properties_def

lemmas example_defs = example_state_def example_action_def example_schema_def
  example_sample_schema_def example_reference_def example_null_reference_def
  example_version_def example_created_def

lemma example_create:
  "create_object 1 (example_reference 5) 1 example_state =
     (Inr (example_version 0 (example_reference 5)), example_created)"
  by (simp add: create_object_def store_defs log_defs tracker_defs example_defs)

lemma example_update:
  "update_object 1 (example_reference 7) 1 example_created = (Inr (), example_updated)"
  by (simp add: update_object_def store_defs log_defs tracker_defs example_defs example_updated_def)

lemma example_restore:
  "restore_object_version 1 0 1 example_updated =
     (Inr (), example_updated\<lparr>
        objects_table := objects_table example_updated @ [example_version 2 (example_reference 5)],
        user_log := user_log example_updated @ [UL_RESTORE_OBJECT_VERSION 1 1 0 2],
        object_log := object_log example_updated @ [OL_RESTORE_OBJECT_VERSION 1 1 0 2]\<rparr>)"
  by (simp add: restore_object_version_def store_defs log_defs tracker_defs example_defs example_updated_def)

subsection \<open>The invariant of the object table\<close>

lemma sorted_map_int_upt: "sorted (map int [0..<n])"
  by (simp add: sorted_map sorted_wrt_iff_nth_less)

lemma versions_sorted:
  assumes "store_invariant st"
  shows "Objects_get_object_versions oid st = versions_of oid st"
proof -
  from assms have "map version_id (versions_of oid st) = map int [0..<length (versions_of oid st)]"
    by (simp add: store_invariant_def)
  then have "sorted (map version_id (versions_of oid st))"
    by (simp add: sorted_map_int_upt)
  then show ?thesis
    by (simp add: Objects_get_object_versions_def versions_of_def sort_key_id_if_sorted)
qed

lemma versions_of_empty:
  "(versions_of oid st = []) = (\<forall>r \<in> set (objects_table st). object_id r \<noteq> oid)"
  by (auto simp: versions_of_def filter_empty_conv)

lemma current_version_id:
  assumes "store_invariant st" and "Objects_get_current_object oid st = Some current"
  shows "current = last (versions_of oid st) \<and> versions_of oid st \<noteq> [] \<and>
         version_id current + 1 = int (length (versions_of oid st))"
proof -
  let ?vs = "versions_of oid st"
  from assms have ne: "?vs \<noteq> []" and c: "current = last ?vs"
    by (auto simp: Objects_get_current_object_def versions_sorted Let_def split: if_splits)
  from assms(1) have m: "map version_id ?vs = map int [0..<length ?vs]"
    by (simp add: store_invariant_def)
  from ne have "version_id (last ?vs) = last (map version_id ?vs)"
    by (simp add: last_map)
  also from ne have "\<dots> = int (length ?vs - 1)"
    unfolding m by (cases "length ?vs") (simp_all add: last_map del: upt_Suc)
  finally show ?thesis using ne c by (cases ?vs) auto
qed

lemma fold_max_ge: "(a::int) \<le> fold max xs a"
proof (induction xs arbitrary: a)
  case Nil
  then show ?case by simp
next
  case (Cons y ys)
  have "a \<le> max y a" by simp
  also have "\<dots> \<le> fold max ys (max y a)" by (rule Cons.IH)
  finally show ?case by simp
qed

lemma fold_max_mem: "(x::int) \<in> set xs \<Longrightarrow> x \<le> fold max xs a"
proof (induction xs arbitrary: a)
  case Nil
  then show ?case by simp
next
  case (Cons y ys)
  show ?case
  proof (cases "x = y")
    case True
    have "max y a \<le> fold max ys (max y a)" by (rule fold_max_ge)
    with True show ?thesis by simp
  next
    case False
    with Cons.prems have "x \<in> set ys" by simp
    from Cons.IH [OF this] show ?thesis by simp
  qed
qed

lemma fresh_object_id_fresh: "r \<in> set rows \<Longrightarrow> object_id r < fresh_object_id rows"
  using fold_max_mem [of "object_id r" "map object_id rows" 0]
  by (simp add: fresh_object_id_def)

lemma invariant_append:
  assumes inv: "store_invariant st"
    and ver: "version_id new = int (length (versions_of (object_id new) st))"
    and act: "actions_table st (action_id new) = Some a" "schema new = action_schema a"
    and same: "\<forall>r \<in> set (objects_table st). object_id r = object_id new \<longrightarrow> action_id r = action_id new"
    and tab: "objects_table st' = objects_table st @ [new]"
    and acts: "actions_table st' = actions_table st"
  shows "store_invariant st'"
proof -
  from inv have g: "\<And>oid. map version_id (versions_of oid st) = map int [0..<length (versions_of oid st)]"
    and fk: "\<And>r. r \<in> set (objects_table st) \<Longrightarrow>
               \<exists>a. actions_table st (action_id r) = Some a \<and> schema r = action_schema a"
    and old: "\<And>x y. x \<in> set (objects_table st) \<Longrightarrow> y \<in> set (objects_table st) \<Longrightarrow>
      object_id x = object_id y \<Longrightarrow> action_id x = action_id y"
    unfolding store_invariant_def by blast+
  have 1: "map version_id (versions_of oid st') = map int [0..<length (versions_of oid st')]" for oid
  proof (cases "oid = object_id new")
    case True
    then have "versions_of oid st' = versions_of oid st @ [new]"
      by (simp add: versions_of_def tab)
    with g [of oid] ver True show ?thesis by simp
  next
    case False
    then have "versions_of oid st' = versions_of oid st"
      by (simp add: versions_of_def tab)
    with g [of oid] show ?thesis by simp
  qed
  have 2: "\<exists>a. actions_table st' (action_id r) = Some a \<and> schema r = action_schema a"
    if "r \<in> set (objects_table st')" for r
  proof -
    from that have "r = new \<or> r \<in> set (objects_table st)" unfolding tab by auto
    then show ?thesis using act fk [of r] unfolding acts by blast
  qed
  have 3: "action_id r = action_id r'"
    if r: "r \<in> set (objects_table st')" "r' \<in> set (objects_table st')"
      and e: "object_id r = object_id r'" for r r'
  proof -
    from r have "r = new \<or> r \<in> set (objects_table st)" "r' = new \<or> r' \<in> set (objects_table st)"
      unfolding tab by auto
    then show "action_id r = action_id r'"
      using e old same by metis
  qed
  from 1 2 3 show ?thesis unfolding store_invariant_def by blast
qed

lemma invariant_frame:
  assumes "store_invariant st" and tab: "objects_table st' = objects_table st"
    and acts: "actions_table st' = actions_table st"
  shows "store_invariant st'"
proof -
  have "versions_of oid st' = versions_of oid st" for oid
    by (simp only: versions_of_def tab)
  then have "store_invariant st' = store_invariant st"
    unfolding store_invariant_def tab acts by presburger
  with assms(1) show ?thesis by blast
qed


lemma update_reference_frame:
  "\<exists>evs. snd (update_reference ob uid atype prop st) = st\<lparr>object_log := object_log st @ evs\<rparr>"
proof -
  have "snd (update_reference ob uid atype prop st) = st \<or>
        (\<exists>e. snd (update_reference ob uid atype prop st) = st\<lparr>object_log := object_log st @ [e]\<rparr>)"
    by (auto simp: update_reference_def object_log_use_object_in_measurement_def
        split: prod.splits sum.splits)
  moreover have "st = st\<lparr>object_log := object_log st @ []\<rparr>" by simp
  ultimately show ?thesis by metis
qed

lemma update_references_loop_frame:
  "\<exists>evs. snd (update_references_loop ob uid atype props st) =
          st\<lparr>object_log := object_log st @ evs\<rparr>"
proof (induction props arbitrary: st)
  case Nil
  have "st = st\<lparr>object_log := object_log st @ []\<rparr>" by simp
  then show ?case by (metis update_references_loop.simps(1) snd_conv)
next
  case (Cons leaf props)
  obtain r st1 where step: "update_reference ob uid atype leaf st = (r, st1)"
    by (cases "update_reference ob uid atype leaf st")
  from update_reference_frame [of ob uid atype leaf st] step
  obtain evs where st1: "st1 = st\<lparr>object_log := object_log st @ evs\<rparr>" by auto
  show ?case
  proof (cases r)
    case (Inl e)
    with step st1 show ?thesis by auto
  next
    case (Inr u)
    from Cons.IH [of st1] obtain evs' where
      "snd (update_references_loop ob uid atype props st1) =
         st1\<lparr>object_log := object_log st1 @ evs'\<rparr>" by blast
    with step Inr st1 have "snd (update_references_loop ob uid atype (leaf # props) st) =
         st\<lparr>object_log := object_log st @ (evs @ evs')\<rparr>" by simp
    then show ?thesis by blast
  qed
qed

lemma update_object_references_frame:
  "\<exists>evs. snd (update_object_references ob uid st) = st\<lparr>object_log := object_log st @ evs\<rparr>"
proof -
  have e: "st = st\<lparr>object_log := object_log st @ []\<rparr>" by simp
  show ?thesis
  proof (cases "get_action (action_id ob) st")
    case (Inl err)
    then have "snd (update_object_references ob uid st) = st"
      by (simp add: update_object_references_def)
    with e show ?thesis by metis
  next
    case (Inr a)
    show ?thesis
    proof (cases "get_object_properties ob")
      case (Inl err)
      with Inr have "snd (update_object_references ob uid st) = st"
        by (simp add: update_object_references_def)
      with e show ?thesis by metis
    next
      case props: (Inr props)
      with Inr have "update_object_references ob uid st =
        update_references_loop ob uid (action_type a) props st"
        by (simp add: update_object_references_def)
      with update_references_loop_frame [of ob uid "action_type a" props st]
      show ?thesis by simp
    qed
  qed
qed

lemma resolve_schema_row:
  assumes inv: "store_invariant st"
    and cur: "current \<in> set (objects_table st)"
    and sch: "sch = JNull \<or> (\<exists>old \<in> set (objects_table st).
                object_id old = object_id current \<and> schema old = sch)"
  shows "\<exists>a. actions_table st (action_id current) = Some a \<and>
             resolve_schema sch (action_id current) st = Inr (action_schema a) \<and>
             (sch \<noteq> JNull \<longrightarrow> action_schema a = sch)"
proof -
  from inv have fk: "\<And>r. r \<in> set (objects_table st) \<Longrightarrow>
               \<exists>a. actions_table st (action_id r) = Some a \<and> schema r = action_schema a"
    and same: "\<And>x y. x \<in> set (objects_table st) \<Longrightarrow> y \<in> set (objects_table st) \<Longrightarrow>
      object_id x = object_id y \<Longrightarrow> action_id x = action_id y"
    unfolding store_invariant_def by blast+
  from fk [OF cur] obtain a where a: "actions_table st (action_id current) = Some a" by blast
  show ?thesis
  proof (cases "sch = JNull")
    case True
    with a show ?thesis by (simp add: resolve_schema_def)
  next
    case False
    with sch obtain old where old: "old \<in> set (objects_table st)"
      "object_id old = object_id current" "schema old = sch" by blast
    from same [OF old(1) cur old(2)] fk [OF old(1)] a old(3)
    have "action_schema a = sch" by auto
    with a False show ?thesis by (simp add: resolve_schema_def)
  qed
qed

lemma Objects_update_object_None:
  "Objects_get_current_object oid st = None \<Longrightarrow>
   Objects_update_object oid dat sch uid st = (Inr None, st)"
  by (simp add: Objects_update_object_def)

lemma Objects_update_object_Some:
  assumes inv: "store_invariant st"
    and cur: "Objects_get_current_object oid st = Some current"
    and sch: "sch = JNull \<or> (\<exists>old \<in> set (objects_table st).
                object_id old = oid \<and> schema old = sch)"
  shows "\<exists>new a. Objects_update_object oid dat sch uid st =
            (Inr (Some new), st\<lparr>objects_table := objects_table st @ [new]\<rparr>) \<and>
          object_id new = oid \<and> version_id new = version_id current + 1 \<and>
          action_id new = action_id current \<and> data new = dat \<and>
          schema new = action_schema a \<and> user_id new = uid \<and>
          actions_table st (action_id current) = Some a \<and>
          (sch \<noteq> JNull \<longrightarrow> action_schema a = sch) \<and>
          version_id new = int (length (versions_of oid st)) \<and>
          store_invariant (st\<lparr>objects_table := objects_table st @ [new]\<rparr>)"
proof -
  from current_object_Some [OF cur] have mem: "current \<in> set (objects_table st)"
    and oid: "object_id current = oid" by simp_all
  from sch oid have sch': "sch = JNull \<or> (\<exists>old \<in> set (objects_table st).
                object_id old = object_id current \<and> schema old = sch)" by simp
  from resolve_schema_row [OF inv mem sch'] obtain a where
    a1: "actions_table st (action_id current) = Some a"
    and a2: "resolve_schema sch (action_id current) st = Inr (action_schema a)"
    and a3: "sch \<noteq> JNull \<longrightarrow> action_schema a = sch" by blast
  define new where "new = \<lparr>object_id = oid, version_id = version_id current + 1,
                 action_id = action_id current, data = dat, schema = action_schema a,
                 user_id = uid\<rparr>"
  have sel: "object_id new = oid" "version_id new = version_id current + 1"
    "action_id new = action_id current" "schema new = action_schema a"
    and sel': "data new = dat" "user_id new = uid"
    by (simp_all add: new_def)
  from cur a2 have res: "Objects_update_object oid dat sch uid st =
            (Inr (Some new), st\<lparr>objects_table := objects_table st @ [new]\<rparr>)"
    by (simp add: Objects_update_object_def new_def Let_def)
  from current_version_id [OF inv cur]
  have "version_id current + 1 = int (length (versions_of oid st))" by blast
  then have ver: "version_id new = int (length (versions_of (object_id new) st))"
    by (simp only: sel)
  from inv have same: "\<And>x y. x \<in> set (objects_table st) \<Longrightarrow> y \<in> set (objects_table st) \<Longrightarrow>
      object_id x = object_id y \<Longrightarrow> action_id x = action_id y"
    unfolding store_invariant_def by blast
  have s: "\<forall>r \<in> set (objects_table st). object_id r = object_id new \<longrightarrow> action_id r = action_id new"
  proof (intro ballI impI)
    fix r assume "r \<in> set (objects_table st)" "object_id r = object_id new"
    then have "action_id r = action_id current"
      using same [of r current] mem oid sel(1) by simp
    then show "action_id r = action_id new" by (simp only: sel)
  qed
  have a1': "actions_table st (action_id new) = Some a" using a1 by (simp only: sel)
  have inv': "store_invariant (st\<lparr>objects_table := objects_table st @ [new]\<rparr>)"
    by (rule invariant_append [OF inv ver a1' sel(4) s]) simp_all
  have ver': "version_id new = int (length (versions_of oid st))"
    using ver by (simp only: sel)
  from res sel sel' a1 a3 ver' inv' show ?thesis by blast
qed


lemma current_after_append:
  assumes inv: "store_invariant st'"
    and tab: "objects_table st' = objects_table (st::state) @ [new]"
  shows "Objects_get_current_object (object_id new) st' = Some new"
proof -
  have "versions_of (object_id new) st' = versions_of (object_id new) st @ [new]"
    by (simp add: versions_of_def tab)
  with versions_sorted [OF inv, of "object_id new"] show ?thesis
    by (simp add: Objects_get_current_object_def)
qed

lemma update_object_absent:
  "Objects_get_current_object oid st = None \<Longrightarrow>
   update_object oid dat uid st = (Inl ObjectDoesNotExistError, st)"
  by (simp add: update_object_def Objects_update_object_None)

lemma update_object_present:
  assumes inv: "store_invariant st"
    and cur: "Objects_get_current_object oid st = Some current"
  shows "\<exists>new st'. st' = snd (update_object oid dat uid st) \<and>
           objects_table st' = objects_table st @ [new] \<and>
           actions_table st' = actions_table st \<and>
           object_id new = oid \<and> version_id new = version_id current + 1 \<and>
           data new = dat \<and> user_id new = uid \<and> store_invariant st'"
proof -
  from Objects_update_object_Some [OF inv cur disjI1 [OF refl], of dat uid]
  obtain new a where res: "Objects_update_object oid dat JNull uid st =
            (Inr (Some new), st\<lparr>objects_table := objects_table st @ [new]\<rparr>)"
    and new: "object_id new = oid" "version_id new = version_id current + 1"
      "data new = dat" "user_id new = uid"
    and inv1: "store_invariant (st\<lparr>objects_table := objects_table st @ [new]\<rparr>)"
    by blast
  let ?st1 = "st\<lparr>objects_table := objects_table st @ [new]\<rparr>"
  let ?st3 = "object_log_edit_object (object_id new) uid (version_id new)
                (user_log_edit_object uid (object_id new) (version_id new) ?st1)"
  from res have u: "update_object oid dat uid st = update_object_references new uid ?st3"
    by (simp add: update_object_def)
  from update_object_references_frame [of new uid ?st3]
  obtain evs where "snd (update_object_references new uid ?st3) =
      ?st3\<lparr>object_log := object_log ?st3 @ evs\<rparr>" by blast
  with u have st': "snd (update_object oid dat uid st) = ?st3\<lparr>object_log := object_log ?st3 @ evs\<rparr>"
    by simp
  have tab: "objects_table (snd (update_object oid dat uid st)) = objects_table st @ [new]"
    and acts: "actions_table (snd (update_object oid dat uid st)) = actions_table st"
    unfolding st' by (simp_all add: object_log_edit_object_def user_log_edit_object_def)
  have "store_invariant (snd (update_object oid dat uid st))"
    by (rule invariant_frame [OF inv1]) (simp_all add: tab acts)
  with tab acts new show ?thesis by simp
qed

lemma restore_object_version_present:
  assumes inv: "store_invariant st"
    and old: "Objects_get_object_version oid v st = Some old"
  shows "\<exists>new. restore_object_version oid v uid st =
           (Inr (), st\<lparr>objects_table := objects_table st @ [new],
                       user_log := user_log st @
                         [UL_RESTORE_OBJECT_VERSION uid oid v (version_id new)],
                       object_log := object_log st @
                         [OL_RESTORE_OBJECT_VERSION oid uid v (version_id new)]\<rparr>) \<and>
           object_id new = oid \<and> data new = data old \<and> schema new = schema old \<and>
           user_id new = uid \<and>
           version_id new = int (length (versions_of oid st)) \<and>
           store_invariant (st\<lparr>objects_table := objects_table st @ [new]\<rparr>)"
proof -
  from object_version_Some [OF old] have mem: "old \<in> set (objects_table st)"
    and oid: "object_id old = oid" and v: "version_id old = v" by simp_all
  from mem oid have "Objects_get_current_object oid st \<noteq> None"
    by (auto simp: current_object_None)
  then obtain current where cur: "Objects_get_current_object oid st = Some current" by blast
  from inv have fk: "\<And>r. r \<in> set (objects_table st) \<Longrightarrow>
               \<exists>a. actions_table st (action_id r) = Some a \<and> schema r = action_schema a"
    and same: "\<And>x y. x \<in> set (objects_table st) \<Longrightarrow> y \<in> set (objects_table st) \<Longrightarrow>
      object_id x = object_id y \<Longrightarrow> action_id x = action_id y"
    unfolding store_invariant_def by blast+
  from current_object_Some [OF cur] have cmem: "current \<in> set (objects_table st)"
    and coid: "object_id current = oid" by simp_all
  have sch: "schema old = JNull \<or> (\<exists>r \<in> set (objects_table st).
                object_id r = oid \<and> schema r = schema old)"
    using mem oid by blast
  from Objects_update_object_Some [OF inv cur sch, of "data old" uid]
  obtain new a where res: "Objects_update_object oid (data old) (schema old) uid st =
            (Inr (Some new), st\<lparr>objects_table := objects_table st @ [new]\<rparr>)"
    and new: "object_id new = oid" "data new = data old" "schema new = action_schema a"
      "user_id new = uid"
    and a: "actions_table st (action_id current) = Some a"
    and ver: "version_id new = int (length (versions_of oid st))"
    and inv1: "store_invariant (st\<lparr>objects_table := objects_table st @ [new]\<rparr>)"
    by blast
  from same [OF mem cmem] oid coid have "action_id old = action_id current" by simp
  with fk [OF mem] a have "schema old = action_schema a" by auto
  with new have sel: "object_id new = oid" "data new = data old" "schema new = schema old"
    "user_id new = uid" by simp_all
  from old have "get_object oid (Some v) st = Inr old" by (simp add: get_object_def)
  with res have "restore_object_version oid v uid st =
           (Inr (), st\<lparr>objects_table := objects_table st @ [new],
                       user_log := user_log st @
                         [UL_RESTORE_OBJECT_VERSION uid oid v (version_id new)],
                       object_log := object_log st @
                         [OL_RESTORE_OBJECT_VERSION oid uid v (version_id new)]\<rparr>)"
    by (simp add: restore_object_version_def user_log_restore_object_version_def
        object_log_restore_object_version_def)
  with sel ver inv1 show ?thesis by blast
qed

lemma restore_object_version_absent:
  "Objects_get_object_version oid v st = None \<Longrightarrow>
   snd (restore_object_version oid v uid st) = st"
  by (simp add: restore_object_version_def get_object_def)

lemma create_object_table:
  "(snd (create_object aid dat uid st) = st) \<or>
   (\<exists>a evs st'. st' = snd (create_object aid dat uid st) \<and>
      actions_table st aid = Some a \<and>
      objects_table st' = objects_table st @
        [\<lparr>object_id = fresh_object_id (objects_table st), version_id = 0, action_id = aid,
          data = dat, schema = action_schema a, user_id = uid\<rparr>] \<and>
      actions_table st' = actions_table st)"
proof (cases "actions_table st aid")
  case None
  then show ?thesis by (simp add: create_object_def get_action_def)
next
  case (Some a)
  show ?thesis
  proof (cases "uid \<in> users_table st")
    case False
    with Some show ?thesis by (simp add: create_object_def get_action_def get_user_def)
  next
    case True
    define ob where "ob = \<lparr>object_id = fresh_object_id (objects_table st), version_id = 0,
      action_id = aid, data = dat, schema = action_schema a, user_id = uid\<rparr>"
    let ?st3 = "user_log_create_object (object_id ob) uid
                  (object_log_create_object (object_id ob) uid
                     (st\<lparr>objects_table := objects_table st @ [ob]\<rparr>))"
    from Some True have c: "create_object aid dat uid st =
      (case update_object_references ob uid ?st3 of
         (Inl e, st4) \<Rightarrow> (Inl e, st4)
       | (Inr _, st4) \<Rightarrow> (Inr ob, set_initial_permissions ob st4))"
      unfolding ob_def
      by (simp add: create_object_def get_action_def get_user_def Objects_create_object_def
          resolve_schema_def Let_def)
    from update_object_references_frame [of ob uid ?st3]
    obtain evs where f: "snd (update_object_references ob uid ?st3) =
      ?st3\<lparr>object_log := object_log ?st3 @ evs\<rparr>" by blast
    obtain r st4 where r: "update_object_references ob uid ?st3 = (r, st4)"
      by (cases "update_object_references ob uid ?st3")
    with f have st4: "st4 = ?st3\<lparr>object_log := object_log ?st3 @ evs\<rparr>" by simp
    have "objects_table (snd (create_object aid dat uid st)) = objects_table st @ [ob] \<and>
          actions_table (snd (create_object aid dat uid st)) = actions_table st"
      unfolding c r st4
      by (cases r) (simp_all add: set_initial_permissions_def user_log_create_object_def
          object_log_create_object_def)
    with Some show ?thesis unfolding ob_def by blast
  qed
qed

lemma create_object_invariant:
  assumes inv: "store_invariant st"
  shows "store_invariant (snd (create_object aid dat uid st))"
proof -
  from create_object_table [of aid dat uid st]
  show ?thesis
  proof
    assume "snd (create_object aid dat uid st) = st"
    with inv show ?thesis by simp
  next
    assume "\<exists>a evs st'. st' = snd (create_object aid dat uid st) \<and>
      actions_table st aid = Some a \<and>
      objects_table st' = objects_table st @
        [\<lparr>object_id = fresh_object_id (objects_table st), version_id = 0, action_id = aid,
          data = dat, schema = action_schema a, user_id = uid\<rparr>] \<and>
      actions_table st' = actions_table st"
    then obtain a where a: "actions_table st aid = Some a"
      and tab: "objects_table (snd (create_object aid dat uid st)) = objects_table st @
        [\<lparr>object_id = fresh_object_id (objects_table st), version_id = 0, action_id = aid,
          data = dat, schema = action_schema a, user_id = uid\<rparr>]"
      and acts: "actions_table (snd (create_object aid dat uid st)) = actions_table st"
      by blast
    let ?new = "\<lparr>object_id = fresh_object_id (objects_table st), version_id = 0, action_id = aid,
          data = dat, schema = action_schema a, user_id = uid\<rparr>"
    have none: "\<forall>r \<in> set (objects_table st). object_id r \<noteq> fresh_object_id (objects_table st)"
      using fresh_object_id_fresh by fastforce
    then have "versions_of (fresh_object_id (objects_table st)) st = []"
      by (simp add: versions_of_empty)
    then have ver: "version_id ?new = int (length (versions_of (object_id ?new) st))" by simp
    have s: "\<forall>r \<in> set (objects_table st). object_id r = object_id ?new \<longrightarrow>
               action_id r = action_id ?new"
      using none by simp
    show ?thesis
      by (rule invariant_append [OF inv ver _ _ s tab acts, where a = a]) (simp_all add: a)
  qed
qed

lemma update_object_invariant:
  assumes inv: "store_invariant st"
  shows "store_invariant (snd (update_object oid dat uid st))"
proof (cases "Objects_get_current_object oid st")
  case None
  with inv show ?thesis by (simp add: update_object_absent)
next
  case (Some current)
  from update_object_present [OF inv Some, of dat uid] show ?thesis by blast
qed

lemma restore_object_version_invariant:
  assumes inv: "store_invariant st"
  shows "store_invariant (snd (restore_object_version oid v uid st))"
proof (cases "Objects_get_object_version oid v st")
  case None
  with inv show ?thesis by (simp add: restore_object_version_absent)
next
  case (Some old)
  from restore_object_version_present [OF inv Some, of uid]
  obtain new where r: "restore_object_version oid v uid st =
           (Inr (), st\<lparr>objects_table := objects_table st @ [new],
                       user_log := user_log st @
                         [UL_RESTORE_OBJECT_VERSION uid oid v (version_id new)],
                       object_log := object_log st @
                         [OL_RESTORE_OBJECT_VERSION oid uid v (version_id new)]\<rparr>)"
    and i: "store_invariant (st\<lparr>objects_table := objects_table st @ [new]\<rparr>)" by blast
  show ?thesis
    unfolding r by (rule invariant_frame [OF i]) simp_all
qed

lemma reachable_invariant: "reachable st \<Longrightarrow> store_invariant st"
proof (induction rule: reachable.induct)
  case (init st)
  then show ?case by (simp add: store_invariant_def versions_of_def)
next
  case (create st aid dat uid)
  then show ?case by (simp add: create_object_invariant)
next
  case (update st oid dat uid)
  then show ?case by (simp add: update_object_invariant)
next
  case (restore st oid vid uid)
  then show ?case by (simp add: restore_object_version_invariant)
qed

subsection \<open>The example states are reachable\<close>

lemma example_state_reachable: "reachable example_state"
  by (rule reachable.init) (simp add: example_state_def)

lemma example_created_reachable: "reachable example_created"
  using reachable.create [OF example_state_reachable, of 1 "example_reference 5" 1]
  by (simp add: example_create)

lemma example_updated_reachable: "reachable example_updated"
  using reachable.update [OF example_created_reachable, of 1 "example_reference 7" 1]
  by (simp add: example_update)

subsection \<open>The events of the tracker\<close>

lemma previous_referenced_object_id_frame:
  assumes "objects_table st1 = objects_table st"
  shows "previous_referenced_object_id ob path st1 = previous_referenced_object_id ob path st"
proof -
  have v: "Objects_get_object_versions oid st1 = Objects_get_object_versions oid st" for oid
    by (simp only: Objects_get_object_versions_def assms)
  have c: "Objects_get_current_object oid st1 = Objects_get_current_object oid st" for oid
    by (simp only: Objects_get_current_object_def v)
  have g: "Objects_get_object_version oid vid st1 = Objects_get_object_version oid vid st"
    for oid vid
    by (simp only: Objects_get_object_version_def assms)
  have "get_object oid vid st1 = get_object oid vid st" for oid vid
    by (simp only: get_object_def c g)
  then show ?thesis by (simp only: previous_referenced_object_id_def)
qed

lemma update_reference_events:
  assumes "update_reference ob uid atype leaf st1 = (Inr (), st2)"
    and "objects_table st1 = objects_table st"
  shows "st2 = st1\<lparr>object_log := object_log st1 @ reference_events ob uid atype st leaf\<rparr>"
proof -
  obtain path sch dat where leaf: "leaf = (path, sch, dat)" by (cases leaf)
  note p = previous_referenced_object_id_frame [OF assms(2), of ob path]
  from assms(1) show ?thesis
    by (auto simp: leaf update_reference_def reference_events_def p
        object_log_use_object_in_measurement_def split: sum.splits if_splits)
qed

lemma update_references_loop_events:
  assumes "update_references_loop ob uid atype props st1 = (Inr (), st2)"
    and "objects_table st1 = objects_table st"
  shows "st2 = st1\<lparr>object_log :=
           object_log st1 @ concat (map (reference_events ob uid atype st) props)\<rparr>"
  using assms
proof (induction props arbitrary: st1)
  case Nil
  then show ?case by simp
next
  case (Cons leaf props)
  obtain r st' where step: "update_reference ob uid atype leaf st1 = (r, st')"
    by (cases "update_reference ob uid atype leaf st1")
  with Cons.prems(1) obtain u where r: "r = Inr u"
    by (cases r) auto
  with step have step': "update_reference ob uid atype leaf st1 = (Inr (), st')" by simp
  from update_reference_events [OF step' Cons.prems(2)]
  have st': "st' = st1\<lparr>object_log := object_log st1 @ reference_events ob uid atype st leaf\<rparr>" .
  then have tab: "objects_table st' = objects_table st" using Cons.prems(2) by simp
  from Cons.prems(1) step' have "update_references_loop ob uid atype props st' = (Inr (), st2)"
    by simp
  from Cons.IH [OF this tab] show ?case unfolding st' by simp
qed

section \<open>The claims\<close>

text \<open>
  Claim C1, as amended. For a property of type \<open>sample\<close> the tracker emits a "used in
  measurement" event on the log of the referenced object, naming the referencing object
  and the acting user, if and only if the action is a measurement, the property's
  \<open>object_id\<close> is not null and it differs from the previous reference. The previous
  reference is null for version 0; otherwise it is the \<open>object_id\<close> found at the same
  path in the preceding version, a \<open>KeyError\<close> or \<open>IndexError\<close> raised while walking
  the path counting as no previous reference. A run of the tracker that returns appends
  exactly these events, in the order of the properties, and changes nothing else.
\<close>

theorem update_object_references_events:
  "(get_action (action_id ob) st = Inr action \<and> get_object_properties ob = Inr props \<and>
    update_object_references ob uid st = (Inr (), st') \<longrightarrow>
      st' = st\<lparr>object_log := object_log st @
              concat (map (reference_events ob uid (action_type action) st) props)\<rparr>) \<and>
   (py_getitem sch (JStr ''type'') = Inr (JStr ''sample'') \<longrightarrow>
      (dat = JNull \<longrightarrow> update_reference ob uid atype (path, sch, dat) st = (Inr (), st)) \<and>
      (dat \<noteq> JNull \<and> py_getitem dat (JStr ''object_id'') = Inr JNull \<longrightarrow>
         update_reference ob uid atype (path, sch, dat) st = (Inr (), st)) \<and>
      (dat \<noteq> JNull \<and> py_getitem dat (JStr ''object_id'') = Inr current \<and>
       current \<noteq> JNull \<and> previous_referenced_object_id ob path st = Inr previous \<longrightarrow>
         update_reference ob uid atype (path, sch, dat) st =
           (Inr (),
            if atype = MEASUREMENT \<and> \<not> py_eq current previous
            then st\<lparr>object_log :=
                      object_log st @ [OL_USE_OBJECT_IN_MEASUREMENT current uid (object_id ob)]\<rparr>
            else st))) \<and>
   (version_id ob \<le> 0 \<longrightarrow> previous_referenced_object_id ob path st = Inr JNull) \<and>
   (0 < version_id ob \<and>
    get_object (object_id ob) (Some (version_id ob - 1)) st = Inr before \<longrightarrow>
      (walk_path (data before) path = Inl KeyError \<or>
       walk_path (data before) path = Inl IndexError \<longrightarrow>
         previous_referenced_object_id ob path st = Inr JNull) \<and>
      (walk_path (data before) path = Inr JNull \<longrightarrow>
         previous_referenced_object_id ob path st = Inr JNull) \<and>
      (\<forall>previous_data. walk_path (data before) path = Inr previous_data \<and>
         previous_data \<noteq> JNull \<longrightarrow>
         previous_referenced_object_id ob path st =
           py_getitem previous_data (JStr ''object_id'')))"
proof (intro conjI impI allI)
  assume a: "get_action (action_id ob) st = Inr action \<and> get_object_properties ob = Inr props \<and>
    update_object_references ob uid st = (Inr (), st')"
  then have "update_references_loop ob uid (action_type action) props st = (Inr (), st')"
    by (auto simp: update_object_references_def)
  from update_references_loop_events [OF this refl]
  show "st' = st\<lparr>object_log := object_log st @
              concat (map (reference_events ob uid (action_type action) st) props)\<rparr>" .
next
  assume "py_getitem sch (JStr ''type'') = Inr (JStr ''sample'')" "dat = JNull"
  then show "update_reference ob uid atype (path, sch, dat) st = (Inr (), st)"
    by (simp add: update_reference_def)
next
  assume "py_getitem sch (JStr ''type'') = Inr (JStr ''sample'')"
    "dat \<noteq> JNull \<and> py_getitem dat (JStr ''object_id'') = Inr JNull"
  then show "update_reference ob uid atype (path, sch, dat) st = (Inr (), st)"
    by (simp add: update_reference_def)
next
  assume "py_getitem sch (JStr ''type'') = Inr (JStr ''sample'')"
    "dat \<noteq> JNull \<and> py_getitem dat (JStr ''object_id'') = Inr current \<and>
       current \<noteq> JNull \<and> previous_referenced_object_id ob path st = Inr previous"
  then show "update_reference ob uid atype (path, sch, dat) st =
           (Inr (),
            if atype = MEASUREMENT \<and> \<not> py_eq current previous
            then st\<lparr>object_log :=
                      object_log st @ [OL_USE_OBJECT_IN_MEASUREMENT current uid (object_id ob)]\<rparr>
            else st)"
    by (simp add: update_reference_def object_log_use_object_in_measurement_def)
next
  assume "version_id ob \<le> 0"
  then show "previous_referenced_object_id ob path st = Inr JNull"
    by (simp add: previous_referenced_object_id_def)
next
  assume "0 < version_id ob \<and>
     get_object (object_id ob) (Some (version_id ob - 1)) st = Inr before"
    and "walk_path (data before) path = Inl KeyError \<or>
        walk_path (data before) path = Inl IndexError"
  then show "previous_referenced_object_id ob path st = Inr JNull"
    by (auto simp: previous_referenced_object_id_def)
next
  assume "0 < version_id ob \<and>
     get_object (object_id ob) (Some (version_id ob - 1)) st = Inr before"
    and "walk_path (data before) path = Inr JNull"
  then show "previous_referenced_object_id ob path st = Inr JNull"
    by (simp add: previous_referenced_object_id_def)
next
  fix previous_data
  assume "0 < version_id ob \<and>
     get_object (object_id ob) (Some (version_id ob - 1)) st = Inr before"
    and "walk_path (data before) path = Inr previous_data \<and> previous_data \<noteq> JNull"
  then show "previous_referenced_object_id ob path st =
            py_getitem previous_data (JStr ''object_id'')"
    by (simp add: previous_referenced_object_id_def)
qed

theorem update_object_references_events_witness:
  "create_object 1 (example_reference 5) 1 example_state =
     (Inr (example_version 0 (example_reference 5)), example_created) \<and>
   update_object 1 (example_reference 7) 1 example_created = (Inr (), example_updated) \<and>
   object_log example_updated =
     [OL_CREATE_OBJECT 1 1, OL_USE_OBJECT_IN_MEASUREMENT (JInt 5) 1 1,
      OL_EDIT_OBJECT 1 1 1, OL_USE_OBJECT_IN_MEASUREMENT (JInt 7) 1 1] \<and>
   update_object_references (example_version 0 (example_reference 5)) 1 example_created =
     (Inr (), example_created\<lparr>object_log :=
        object_log example_created @ [OL_USE_OBJECT_IN_MEASUREMENT (JInt 5) 1 1]\<rparr>) \<and>
   update_object_references (example_version 1 (example_reference 7)) 1 example_updated =
     (Inr (), example_updated\<lparr>object_log :=
        object_log example_updated @ [OL_USE_OBJECT_IN_MEASUREMENT (JInt 7) 1 1]\<rparr>) \<and>
   reference_events (example_version 0 (example_reference 5)) 1 MEASUREMENT example_created
     ([JStr ''a''], example_sample_schema, JDict [(''object_id'', JInt 5)]) =
     [OL_USE_OBJECT_IN_MEASUREMENT (JInt 5) 1 1] \<and>
   reference_events (example_version 1 (example_reference 7)) 1 MEASUREMENT example_updated
     ([JStr ''a''], example_sample_schema, JDict [(''object_id'', JInt 7)]) =
     [OL_USE_OBJECT_IN_MEASUREMENT (JInt 7) 1 1] \<and>
   previous_referenced_object_id (example_version 1 (example_reference 7)) [JStr ''a'']
     example_updated = Inr (JInt 5) \<and>
   update_reference (example_version 1 (example_reference 5)) 1 MEASUREMENT
     ([JStr ''a''], example_sample_schema, JDict [(''object_id'', JInt 5)]) example_updated =
     (Inr (), example_updated) \<and>
   update_reference (example_version 1 (example_reference 7)) 1 SAMPLE_CREATION
     ([JStr ''a''], example_sample_schema, JDict [(''object_id'', JInt 7)]) example_updated =
     (Inr (), example_updated) \<and>
   previous_referenced_object_id (example_version 1 (example_reference 7)) [JStr ''b'']
     example_updated = Inr JNull"
proof -
  let ?v0 = "example_version 0 (example_reference 5)"
  let ?v1 = "example_version 1 (example_reference 7)"
  let ?leaf = "\<lambda>n. ([JStr ''a''], example_sample_schema, JDict [(''object_id'', JInt n)])"
  have t: "py_getitem example_sample_schema (JStr ''type'') = Inr (JStr ''sample'')"
    by (simp add: example_sample_schema_def)
  have g: "get_object 1 (Some 0) example_updated = Inr ?v0"
    by (simp add: store_defs example_defs example_updated_def)
  have a0: "get_action (action_id ?v0) example_created = Inr example_action"
    and a1: "get_action (action_id ?v1) example_updated = Inr example_action"
    by (simp_all add: get_action_def example_defs example_updated_def)
  have p0: "get_object_properties ?v0 = Inr [?leaf 5]"
    and p1: "get_object_properties ?v1 = Inr [?leaf 7]"
    by (simp_all add: get_object_properties_def example_defs)
  have r0: "update_object_references ?v0 1 example_created =
     (Inr (), example_created\<lparr>object_log :=
        object_log example_created @ [OL_USE_OBJECT_IN_MEASUREMENT (JInt 5) 1 1]\<rparr>)"
    by (simp add: store_defs log_defs tracker_defs example_defs)
  have r1: "update_object_references ?v1 1 example_updated =
     (Inr (), example_updated\<lparr>object_log :=
        object_log example_updated @ [OL_USE_OBJECT_IN_MEASUREMENT (JInt 7) 1 1]\<rparr>)"
    by (simp add: store_defs log_defs tracker_defs example_defs example_updated_def)
  note u = update_object_references_events
  have "example_created\<lparr>object_log :=
          object_log example_created @ [OL_USE_OBJECT_IN_MEASUREMENT (JInt 5) 1 1]\<rparr> =
        example_created\<lparr>object_log := object_log example_created @
          concat (map (reference_events ?v0 1 (action_type example_action) example_created)
                    [?leaf 5])\<rparr>"
    using u [where ob = ?v0 and st = example_created and action = example_action
        and props = "[?leaf 5]" and uid = 1 and st' = "example_created\<lparr>object_log :=
          object_log example_created @ [OL_USE_OBJECT_IN_MEASUREMENT (JInt 5) 1 1]\<rparr>"]
      a0 p0 r0
    by blast
  from arg_cong [OF this, of object_log]
  have e0: "reference_events ?v0 1 MEASUREMENT example_created (?leaf 5) =
            [OL_USE_OBJECT_IN_MEASUREMENT (JInt 5) 1 1]"
    by (simp add: example_action_def)
  have "example_updated\<lparr>object_log :=
          object_log example_updated @ [OL_USE_OBJECT_IN_MEASUREMENT (JInt 7) 1 1]\<rparr> =
        example_updated\<lparr>object_log := object_log example_updated @
          concat (map (reference_events ?v1 1 (action_type example_action) example_updated)
                    [?leaf 7])\<rparr>"
    using u [where ob = ?v1 and st = example_updated and action = example_action
        and props = "[?leaf 7]" and uid = 1 and st' = "example_updated\<lparr>object_log :=
          object_log example_updated @ [OL_USE_OBJECT_IN_MEASUREMENT (JInt 7) 1 1]\<rparr>"]
      a1 p1 r1
    by blast
  from arg_cong [OF this, of object_log]
  have e1: "reference_events ?v1 1 MEASUREMENT example_updated (?leaf 7) =
            [OL_USE_OBJECT_IN_MEASUREMENT (JInt 7) 1 1]"
    by (simp add: example_action_def)
  have q1: "previous_referenced_object_id (example_version 1 d) [JStr ''a'']
     example_updated = Inr (JInt 5)" for d
    using u [where ob = "example_version 1 d" and st = example_updated
        and before = ?v0 and path = "[JStr ''a'']"] g
    by (simp add: example_version_def example_reference_def)
  have q2: "previous_referenced_object_id (example_version 1 d) [JStr ''b'']
     example_updated = Inr JNull" for d
    using u [where ob = "example_version 1 d" and st = example_updated
        and before = ?v0 and path = "[JStr ''b'']"] g
    by (simp add: example_version_def example_reference_def)
  have s1: "update_reference (example_version 1 (example_reference 5)) 1 MEASUREMENT
     (?leaf 5) example_updated = (Inr (), example_updated)"
    using u [where sch = example_sample_schema and dat = "JDict [(''object_id'', JInt 5)]"
        and ob = "example_version 1 (example_reference 5)" and uid = 1 and atype = MEASUREMENT
        and path = "[JStr ''a'']" and st = example_updated and current = "JInt 5"
        and previous = "JInt 5"] t q1
    by simp
  have s2: "update_reference ?v1 1 SAMPLE_CREATION (?leaf 7) example_updated =
     (Inr (), example_updated)"
    using u [where sch = example_sample_schema and dat = "JDict [(''object_id'', JInt 7)]"
        and ob = ?v1 and uid = 1 and atype = SAMPLE_CREATION
        and path = "[JStr ''a'']" and st = example_updated and current = "JInt 7"
        and previous = "JInt 5"] t q1
    by simp
  have l: "object_log example_updated =
     [OL_CREATE_OBJECT 1 1, OL_USE_OBJECT_IN_MEASUREMENT (JInt 5) 1 1,
      OL_EDIT_OBJECT 1 1 1, OL_USE_OBJECT_IN_MEASUREMENT (JInt 7) 1 1]"
    by (simp add: example_updated_def)
  from example_create example_update l r0 r1 e0 e1 q1 q2 s1 s2 show ?thesis by simp
qed

text \<open>
  The claim as stated fails when the reference is null: version 0 references sample 5,
  version 1 holds \<open>{object_id: null}\<close> at the same path. The action is a measurement and
  the current reference (null) differs from the previous one (5), yet the update writes
  the edit event only: line 193 skips a property whose \<open>object_id\<close> is null.
\<close>

theorem update_reference_null_counterexample:
  "action_type example_action = MEASUREMENT \<and>
   get_object_properties (example_version 1 example_null_reference) =
     Inr [([JStr ''a''], example_sample_schema, JDict [(''object_id'', JNull)])] \<and>
   previous_referenced_object_id (example_version 1 example_null_reference) [JStr ''a'']
     example_created = Inr (JInt 5) \<and>
   \<not> py_eq JNull (JInt 5) \<and>
   update_reference (example_version 1 example_null_reference) 1 MEASUREMENT
     ([JStr ''a''], example_sample_schema, JDict [(''object_id'', JNull)]) example_created =
     (Inr (), example_created) \<and>
   update_object 1 example_null_reference 1 example_created =
     (Inr (), example_created\<lparr>
        objects_table := objects_table example_created @ [example_version 1 example_null_reference],
        user_log := user_log example_created @ [UL_EDIT_OBJECT 1 1 1],
        object_log := object_log example_created @ [OL_EDIT_OBJECT 1 1 1]\<rparr>)"
  by (simp add: update_object_def store_defs log_defs tracker_defs example_defs)

text \<open>
  Claim C2. The walker recurses, for a schema of type \<open>object\<close> and a dictionary as
  data, into exactly the properties present in both \<open>schema['properties']\<close> (in its
  order) and the data, a key missing from the data being skipped without an error; for a
  schema of type \<open>array\<close> and a list as data, into every element paired with
  \<open>schema['items']\<close>, the index being the path component; a schema of any other type
  yields the one leaf \<open>(path, schema, data)\<close>. The schema
  \<open>{type: object, properties: {a: {type: sample}}}\<close> with the data
  \<open>{a: {object_id: 5}}\<close> yields exactly \<open>(['a'], {type: sample}, {object_id: 5})\<close>.
\<close>

theorem iter_object_properties_rule:
  "(py_getitem sch (JStr ''type'') = Inr t \<and> t \<noteq> JStr ''object'' \<and> t \<noteq> JStr ''array'' \<longrightarrow>
      iter_object_properties path sch dat = Inr [(path, sch, dat)]) \<and>
   (py_getitem sch (JStr ''type'') = Inr (JStr ''object'') \<and>
    py_getitem sch (JStr ''properties'') = Inr (JDict props) \<longrightarrow>
      iter_object_properties path sch (JDict kvs) =
        collect (map (\<lambda>name. iter_object_properties (path @ [JStr name])
                                (the (map_of props name)) (the (map_of kvs name)))
                   (filter (\<lambda>name. name \<in> fst ` set kvs) (map fst props)))) \<and>
   (py_getitem sch (JStr ''type'') = Inr (JStr ''array'') \<and>
    py_getitem sch (JStr ''items'') = Inr item_schema \<longrightarrow>
      iter_object_properties path sch (JList xs) =
        collect (map (\<lambda>(index, item).
                   iter_object_properties (path @ [JInt (int index)]) item_schema item)
                 (enumerate 0 xs))) \<and>
   (schema ob = example_schema \<and> data ob = JDict [(''a'', JDict [(''object_id'', JInt 5)])] \<longrightarrow>
      get_object_properties ob =
        Inr [([JStr ''a''], example_sample_schema, JDict [(''object_id'', JInt 5)])])"
proof (intro conjI impI)
  assume "py_getitem sch (JStr ''type'') = Inr t \<and> t \<noteq> JStr ''object'' \<and> t \<noteq> JStr ''array''"
  then show "iter_object_properties path sch dat = Inr [(path, sch, dat)]"
    by (simp add: iter_object_properties_leaf)
next
  assume "py_getitem sch (JStr ''type'') = Inr (JStr ''object'') \<and>
    py_getitem sch (JStr ''properties'') = Inr (JDict props)"
  then show "iter_object_properties path sch (JDict kvs) =
        collect (map (\<lambda>name. iter_object_properties (path @ [JStr name])
                                (the (map_of props name)) (the (map_of kvs name)))
                   (filter (\<lambda>name. name \<in> fst ` set kvs) (map fst props)))"
    by (intro iter_object_properties_object) simp_all
next
  assume "py_getitem sch (JStr ''type'') = Inr (JStr ''array'') \<and>
    py_getitem sch (JStr ''items'') = Inr item_schema"
  then show "iter_object_properties path sch (JList xs) =
        collect (map (\<lambda>(index, item).
                   iter_object_properties (path @ [JInt (int index)]) item_schema item)
                 (enumerate 0 xs))"
    by (intro iter_object_properties_array) simp_all
next
  assume a: "schema ob = example_schema \<and>
    data ob = JDict [(''a'', JDict [(''object_id'', JInt 5)])]"
  have leaf: "iter_object_properties [JStr ''a''] example_sample_schema
                (JDict [(''object_id'', JInt 5)]) =
              Inr [([JStr ''a''], example_sample_schema, JDict [(''object_id'', JInt 5)])]"
    by (rule iter_object_properties_leaf [where t = "JStr ''sample''"])
       (simp_all add: example_sample_schema_def)
  have "iter_object_properties [] example_schema (JDict [(''a'', JDict [(''object_id'', JInt 5)])]) =
        collect (map (\<lambda>name. iter_object_properties ([] @ [JStr name])
            (the (map_of [(''a'', example_sample_schema)] name))
            (the (map_of [(''a'', JDict [(''object_id'', JInt 5)])] name)))
          (filter (\<lambda>name. name \<in> fst ` set [(''a'', JDict [(''object_id'', JInt 5)])])
             (map fst [(''a'', example_sample_schema)])))"
    by (rule iter_object_properties_object) (simp_all add: example_schema_def)
  also have "\<dots> = Inr [([JStr ''a''], example_sample_schema, JDict [(''object_id'', JInt 5)])]"
    by (simp add: leaf del: iter_object_properties.simps)
  finally show "get_object_properties ob =
        Inr [([JStr ''a''], example_sample_schema, JDict [(''object_id'', JInt 5)])]"
    using a by (simp add: get_object_properties_def)
qed

theorem iter_object_properties_rule_witness:
  "iter_object_properties [] example_nested_schema
     (JDict [(''a'', JDict [(''object_id'', JInt 5)]), (''b'', JList [JStr ''x'', JStr ''y''])]) =
   Inr [([JStr ''a''], example_sample_schema, JDict [(''object_id'', JInt 5)]),
        ([JStr ''b'', JInt 0], JDict [(''type'', JStr ''text'')], JStr ''x''),
        ([JStr ''b'', JInt 1], JDict [(''type'', JStr ''text'')], JStr ''y'')] \<and>
   get_object_properties
     \<lparr>object_id = 1, version_id = 0, action_id = 1,
      data = JDict [(''a'', JDict [(''object_id'', JInt 5)])],
      schema = example_schema, user_id = 1\<rparr> =
   Inr [([JStr ''a''], example_sample_schema, JDict [(''object_id'', JInt 5)])]"
proof -
  let ?arr = "JDict [(''type'', JStr ''array''), (''items'', JDict [(''type'', JStr ''text'')])]"
  let ?props = "[(''a'', example_sample_schema), (''b'', ?arr), (''c'', example_sample_schema)]"
  let ?kvs = "[(''a'', JDict [(''object_id'', JInt 5)]), (''b'', JList [JStr ''x'', JStr ''y''])]"
  have a: "iter_object_properties [JStr ''a''] example_sample_schema (JDict [(''object_id'', JInt 5)])
           = Inr [([JStr ''a''], example_sample_schema, JDict [(''object_id'', JInt 5)])]"
    using iter_object_properties_rule [of example_sample_schema "JStr ''sample''" "[JStr ''a'']"
        "JDict [(''object_id'', JInt 5)]"]
    by (simp add: example_sample_schema_def)
  have x: "iter_object_properties [JStr ''b'', JInt 0] (JDict [(''type'', JStr ''text'')]) (JStr ''x'')
           = Inr [([JStr ''b'', JInt 0], JDict [(''type'', JStr ''text'')], JStr ''x'')]"
    and y: "iter_object_properties [JStr ''b'', JInt 1] (JDict [(''type'', JStr ''text'')]) (JStr ''y'')
           = Inr [([JStr ''b'', JInt 1], JDict [(''type'', JStr ''text'')], JStr ''y'')]"
    using iter_object_properties_rule [of "JDict [(''type'', JStr ''text'')]" "JStr ''text''"]
    by simp_all
  have b: "iter_object_properties [JStr ''b''] ?arr (JList [JStr ''x'', JStr ''y'']) =
           Inr [([JStr ''b'', JInt 0], JDict [(''type'', JStr ''text'')], JStr ''x''),
                ([JStr ''b'', JInt 1], JDict [(''type'', JStr ''text'')], JStr ''y'')]"
    using iter_object_properties_rule [of ?arr _ "[JStr ''b'']" _ _ _ "JDict [(''type'', JStr ''text'')]"
        "[JStr ''x'', JStr ''y'']"] x y
    by (simp del: iter_object_properties.simps)
  have "iter_object_properties [] example_nested_schema (JDict ?kvs) =
        Inr [([JStr ''a''], example_sample_schema, JDict [(''object_id'', JInt 5)]),
        ([JStr ''b'', JInt 0], JDict [(''type'', JStr ''text'')], JStr ''x''),
        ([JStr ''b'', JInt 1], JDict [(''type'', JStr ''text'')], JStr ''y'')]"
    using iter_object_properties_rule [of example_nested_schema _ "[]" _ ?props ?kvs] a b
    by (simp add: example_nested_schema_def del: iter_object_properties.simps)
  moreover have "get_object_properties
     \<lparr>object_id = 1, version_id = 0, action_id = 1,
      data = JDict [(''a'', JDict [(''object_id'', JInt 5)])],
      schema = example_schema, user_id = 1\<rparr> =
   Inr [([JStr ''a''], example_sample_schema, JDict [(''object_id'', JInt 5)])]"
    using iter_object_properties_rule [where ob = "\<lparr>object_id = 1, version_id = 0, action_id = 1,
      data = JDict [(''a'', JDict [(''object_id'', JInt 5)])],
      schema = example_schema, user_id = 1\<rparr>"]
    by simp
  ultimately show ?thesis by simp
qed

text \<open>
  Claim C3. \<open>get_object\<close> with a version: when no row of the table has the object
  identifier it raises \<open>ObjectDoesNotExistError\<close>; when the object has rows but none
  with that version it raises \<open>ObjectVersionDoesNotExistError\<close>; otherwise it returns a
  row with that identifier and version. Without a version it returns the object's row of
  greatest version, or raises \<open>ObjectDoesNotExistError\<close> when the object has no row.
\<close>

theorem get_object_result:
  "((\<forall>r \<in> set (objects_table st). object_id r \<noteq> oid) \<longrightarrow>
      get_object oid (Some v) st = Inl ObjectDoesNotExistError \<and>
      get_object oid None st = Inl ObjectDoesNotExistError) \<and>
   ((\<exists>r \<in> set (objects_table st). object_id r = oid) \<and>
    (\<forall>r \<in> set (objects_table st). object_id r = oid \<longrightarrow> version_id r \<noteq> v) \<longrightarrow>
      get_object oid (Some v) st = Inl ObjectVersionDoesNotExistError) \<and>
   ((\<exists>r \<in> set (objects_table st). object_id r = oid \<and> version_id r = v) \<longrightarrow>
      (\<exists>ob. get_object oid (Some v) st = Inr ob \<and> ob \<in> set (objects_table st) \<and>
            object_id ob = oid \<and> version_id ob = v)) \<and>
   ((\<exists>r \<in> set (objects_table st). object_id r = oid) \<longrightarrow>
      (\<exists>ob. get_object oid None st = Inr ob \<and> ob \<in> set (objects_table st) \<and>
            object_id ob = oid \<and>
            (\<forall>r \<in> set (objects_table st). object_id r = oid \<longrightarrow> version_id r \<le> version_id ob)))"
proof (intro conjI impI)
  assume a: "\<forall>r \<in> set (objects_table st). object_id r \<noteq> oid"
  then have c: "Objects_get_current_object oid st = None"
    by (simp add: current_object_None)
  from a have "Objects_get_object_version oid v st = None"
    by (simp add: object_version_None)
  with c show "get_object oid (Some v) st = Inl ObjectDoesNotExistError"
    by (simp add: get_object_def)
  from c show "get_object oid None st = Inl ObjectDoesNotExistError"
    by (simp add: get_object_def)
next
  assume a: "(\<exists>r \<in> set (objects_table st). object_id r = oid) \<and>
    (\<forall>r \<in> set (objects_table st). object_id r = oid \<longrightarrow> version_id r \<noteq> v)"
  then have c: "Objects_get_current_object oid st \<noteq> None"
    by (simp add: current_object_None)
  from a have "Objects_get_object_version oid v st = None"
    by (auto simp: object_version_None)
  with c show "get_object oid (Some v) st = Inl ObjectVersionDoesNotExistError"
    by (simp add: get_object_def)
next
  assume "\<exists>r \<in> set (objects_table st). object_id r = oid \<and> version_id r = v"
  then have "Objects_get_object_version oid v st \<noteq> None"
    by (simp add: object_version_None)
  then obtain ob where ob: "Objects_get_object_version oid v st = Some ob" by blast
  then have "get_object oid (Some v) st = Inr ob" by (simp add: get_object_def)
  with object_version_Some [OF ob]
  show "\<exists>ob. get_object oid (Some v) st = Inr ob \<and> ob \<in> set (objects_table st) \<and>
            object_id ob = oid \<and> version_id ob = v" by blast
next
  assume "\<exists>r \<in> set (objects_table st). object_id r = oid"
  then have "Objects_get_current_object oid st \<noteq> None"
    by (simp add: current_object_None)
  then obtain ob where ob: "Objects_get_current_object oid st = Some ob" by blast
  then have "get_object oid None st = Inr ob" by (simp add: get_object_def)
  with current_object_Some [OF ob]
  show "\<exists>ob. get_object oid None st = Inr ob \<and> ob \<in> set (objects_table st) \<and>
            object_id ob = oid \<and>
            (\<forall>r \<in> set (objects_table st). object_id r = oid \<longrightarrow> version_id r \<le> version_id ob)"
    by blast
qed

theorem get_object_result_witness:
  "get_object 2 (Some 0) (example_store [example_row 1 0 JNull, example_row 1 1 (JInt 7)])
     = Inl ObjectDoesNotExistError \<and>
   get_object 2 None (example_store [example_row 1 0 JNull, example_row 1 1 (JInt 7)])
     = Inl ObjectDoesNotExistError \<and>
   get_object 1 (Some 2) (example_store [example_row 1 0 JNull, example_row 1 1 (JInt 7)])
     = Inl ObjectVersionDoesNotExistError \<and>
   get_object 1 (Some 0) (example_store [example_row 1 0 JNull, example_row 1 1 (JInt 7)])
     = Inr (example_row 1 0 JNull) \<and>
   get_object 1 None (example_store [example_row 1 0 JNull, example_row 1 1 (JInt 7)])
     = Inr (example_row 1 1 (JInt 7))"
  using get_object_result [of "example_store [example_row 1 0 JNull, example_row 1 1 (JInt 7)]" 2 0]
    get_object_result [of "example_store [example_row 1 0 JNull, example_row 1 1 (JInt 7)]" 1 2]
    get_object_result [of "example_store [example_row 1 0 JNull, example_row 1 1 (JInt 7)]" 1 0]
  by (simp add: example_store_def example_row_def get_object_def Objects_get_current_object_def
      Objects_get_object_versions_def Objects_get_object_version_def)

text \<open>
  Claim C4. In every state, restoring an existing version \<open>v\<close> of an object (a version
  whose schema is a descriptor, not \<open>None\<close>) returns, appends one row to the object
  table, and writes one restore entry to each log carrying \<open>v\<close> and the new version
  number. The new row has the data and the schema of version \<open>v\<close>, whatever the schema
  of the action is by then; its version number is one more than that of the current
  version, greater than that of every earlier version of the object (so different from
  \<open>v\<close>), and it is the current version afterwards.
\<close>

theorem restore_object_version_new_top_version:
  assumes "get_object oid (Some v) st = Inr old" and "schema old \<noteq> JNull"
  shows "\<exists>new current. restore_object_version oid v uid st =
           (Inr (), st\<lparr>objects_table := objects_table st @ [new],
                       user_log := user_log st @
                         [UL_RESTORE_OBJECT_VERSION uid oid v (version_id new)],
                       object_log := object_log st @
                         [OL_RESTORE_OBJECT_VERSION oid uid v (version_id new)]\<rparr>) \<and>
           object_id new = oid \<and> data new = data old \<and> schema new = schema old \<and>
           get_object oid None st = Inr current \<and>
           version_id new = version_id current + 1 \<and>
           (\<forall>r \<in> set (objects_table st). object_id r = oid \<longrightarrow> version_id r < version_id new) \<and>
           version_id new \<noteq> v \<and>
           get_object oid None (snd (restore_object_version oid v uid st)) = Inr new"
proof -
  from assms(1) have old: "Objects_get_object_version oid v st = Some old"
    by (simp add: get_object_def split: option.splits if_splits)
  from object_version_Some [OF old] have mem: "old \<in> set (objects_table st)"
    and oid: "object_id old = oid" and v: "version_id old = v" by simp_all
  from mem oid have "Objects_get_current_object oid st \<noteq> None"
    by (auto simp: current_object_None)
  then obtain current where cur: "Objects_get_current_object oid st = Some current" by blast
  then have gcur: "get_object oid None st = Inr current" by (simp add: get_object_def)
  from current_object_Some [OF cur]
  have max: "\<forall>r \<in> set (objects_table st). object_id r = oid \<longrightarrow> version_id r \<le> version_id current"
    by simp
  define new where "new = \<lparr>object_id = oid, version_id = version_id current + 1,
                 action_id = action_id current, data = data old, schema = schema old,
                 user_id = uid\<rparr>"
  have sel: "object_id new = oid" "version_id new = version_id current + 1"
    "data new = data old" "schema new = schema old"
    by (simp_all add: new_def)
  from cur assms(2) have upd: "Objects_update_object oid (data old) (schema old) uid st =
            (Inr (Some new), st\<lparr>objects_table := objects_table st @ [new]\<rparr>)"
    by (simp add: Objects_update_object_def resolve_schema_def new_def Let_def)
  with assms(1) have r: "restore_object_version oid v uid st =
           (Inr (), st\<lparr>objects_table := objects_table st @ [new],
                       user_log := user_log st @
                         [UL_RESTORE_OBJECT_VERSION uid oid v (version_id new)],
                       object_log := object_log st @
                         [OL_RESTORE_OBJECT_VERSION oid uid v (version_id new)]\<rparr>)"
    by (simp add: restore_object_version_def user_log_restore_object_version_def
        object_log_restore_object_version_def)
  have top: "\<forall>r \<in> set (objects_table st). object_id r = oid \<longrightarrow> version_id r < version_id new"
  proof (intro ballI impI)
    fix x assume "x \<in> set (objects_table st)" "object_id x = oid"
    with max have "version_id x \<le> version_id current" by blast
    then show "version_id x < version_id new" by (simp add: sel)
  qed
  with mem oid v have nv: "version_id new \<noteq> v" by auto
  let ?st' = "snd (restore_object_version oid v uid st)"
  have tab: "objects_table ?st' = objects_table st @ [new]" unfolding r by simp
  from top have top': "\<forall>r \<in> set (objects_table st). object_id r = object_id new \<longrightarrow>
                version_id r < version_id new" by (simp only: sel)
  from current_after_append_top [OF tab top'] sel(1)
  have cur': "get_object oid None ?st' = Inr new" by (simp add: get_object_def)
  from r sel gcur top nv cur' show ?thesis by blast
qed

theorem restore_object_version_new_top_version_witness:
  "get_object 1 (Some 0) example_revised = Inr (example_version 0 (example_reference 5)) \<and>
   restore_object_version 1 0 1 example_revised =
     (Inr (), example_revised\<lparr>
        objects_table := objects_table example_revised @ [example_version 2 (example_reference 5)],
        user_log := user_log example_revised @ [UL_RESTORE_OBJECT_VERSION 1 1 0 2],
        object_log := object_log example_revised @ [OL_RESTORE_OBJECT_VERSION 1 1 0 2]\<rparr>) \<and>
   schema (example_version 2 (example_reference 5)) = example_schema \<and>
   actions_table example_revised 1 =
     Some \<lparr>action_type = MEASUREMENT, action_schema = example_nested_schema\<rparr> \<and>
   example_schema \<noteq> example_nested_schema \<and>
   get_object 1 None (snd (restore_object_version 1 0 1 example_revised)) =
     Inr (example_version 2 (example_reference 5)) \<and>
   map schema (objects_table (snd (update_object 1 (example_reference 5) 1 example_revised))) =
     [example_schema, example_nested_schema, example_nested_schema]"
proof -
  have g: "get_object 1 (Some 0) example_revised = Inr (example_version 0 (example_reference 5))"
    by (simp add: store_defs example_revised_def example_version_def)
  have n: "schema (example_version 0 (example_reference 5)) \<noteq> JNull"
    by (simp add: example_version_def example_schema_def)
  have e: "restore_object_version 1 0 1 example_revised =
     (Inr (), example_revised\<lparr>
        objects_table := objects_table example_revised @ [example_version 2 (example_reference 5)],
        user_log := user_log example_revised @ [UL_RESTORE_OBJECT_VERSION 1 1 0 2],
        object_log := object_log example_revised @ [OL_RESTORE_OBJECT_VERSION 1 1 0 2]\<rparr>)"
    by (simp add: restore_object_version_def store_defs log_defs example_revised_def
        example_version_def example_schema_def)
  from restore_object_version_new_top_version [OF g n, of 1]
  obtain new where r: "restore_object_version 1 0 1 example_revised =
           (Inr (), example_revised\<lparr>objects_table := objects_table example_revised @ [new],
                       user_log := user_log example_revised @
                         [UL_RESTORE_OBJECT_VERSION 1 1 0 (version_id new)],
                       object_log := object_log example_revised @
                         [OL_RESTORE_OBJECT_VERSION 1 1 0 (version_id new)]\<rparr>)"
    and c: "get_object 1 None (snd (restore_object_version 1 0 1 example_revised)) = Inr new"
    by blast
  from r have "objects_table (snd (restore_object_version 1 0 1 example_revised)) =
      objects_table example_revised @ [new]" by simp
  moreover have "objects_table (snd (restore_object_version 1 0 1 example_revised)) =
      objects_table example_revised @ [example_version 2 (example_reference 5)]"
    by (simp add: e)
  ultimately have "new = example_version 2 (example_reference 5)" by simp
  moreover have "schema (example_version 2 (example_reference 5)) = example_schema"
    by (simp add: example_version_def)
  moreover have "actions_table example_revised 1 =
     Some \<lparr>action_type = MEASUREMENT, action_schema = example_nested_schema\<rparr>"
    by (simp add: example_revised_def example_action_def)
  moreover have "example_schema \<noteq> example_nested_schema"
    by (simp add: example_schema_def example_nested_schema_def)
  moreover have "map schema
      (objects_table (snd (update_object 1 (example_reference 5) 1 example_revised))) =
     [example_schema, example_nested_schema, example_nested_schema]"
    by (simp add: update_object_def store_defs log_defs tracker_defs example_revised_def
        example_version_def example_action_def example_nested_schema_def
        example_sample_schema_def example_reference_def)
  ultimately show ?thesis using c g e by simp
qed

text \<open>
  Claim C5. In every reachable state, \<open>get_object_versions\<close> returns, for an object
  that has rows, all its rows in the order they were written, and their version numbers
  are exactly \<open>0, 1, ..., N-1\<close>; it raises \<open>ObjectDoesNotExistError\<close> exactly when the
  object has no row.
\<close>

theorem get_object_versions_gapless:
  assumes "reachable st"
  shows "((\<exists>r \<in> set (objects_table st). object_id r = oid) \<longrightarrow>
            (\<exists>versions. get_object_versions oid st = Inr versions \<and> versions \<noteq> [] \<and>
               versions = filter (\<lambda>r. object_id r = oid) (objects_table st) \<and>
               map version_id versions = map int [0..<length versions])) \<and>
         ((\<forall>r \<in> set (objects_table st). object_id r \<noteq> oid) \<longrightarrow>
            get_object_versions oid st = Inl ObjectDoesNotExistError)"
proof -
  from assms have inv: "store_invariant st" by (rule reachable_invariant)
  have eq: "Objects_get_object_versions oid st = versions_of oid st"
    by (rule versions_sorted [OF inv])
  from inv have g: "map version_id (versions_of oid st) = map int [0..<length (versions_of oid st)]"
    unfolding store_invariant_def by blast
  show ?thesis
  proof (intro conjI impI)
    assume "\<exists>r \<in> set (objects_table st). object_id r = oid"
    then have "versions_of oid st \<noteq> []" by (simp add: versions_of_empty)
    with eq g show "\<exists>versions. get_object_versions oid st = Inr versions \<and> versions \<noteq> [] \<and>
               versions = filter (\<lambda>r. object_id r = oid) (objects_table st) \<and>
               map version_id versions = map int [0..<length versions]"
      by (simp add: get_object_versions_def versions_of_def)
  next
    assume "\<forall>r \<in> set (objects_table st). object_id r \<noteq> oid"
    then have "versions_of oid st = []" by (simp add: versions_of_empty)
    with eq show "get_object_versions oid st = Inl ObjectDoesNotExistError"
      by (simp add: get_object_versions_def)
  qed
qed

theorem get_object_versions_gapless_witness:
  "get_object_versions 1 example_updated =
     Inr [example_version 0 (example_reference 5), example_version 1 (example_reference 7)] \<and>
   map version_id [example_version 0 (example_reference 5),
                   example_version 1 (example_reference 7)] = [0, 1] \<and>
   get_object_versions 2 example_updated = Inl ObjectDoesNotExistError"
  using get_object_versions_gapless [OF example_updated_reachable, of 1]
    get_object_versions_gapless [OF example_updated_reachable, of 2]
  by (simp add: example_updated_def example_version_def)

text \<open>
  Claim C6. In every reachable state, \<open>update_object\<close> on an existing object appends a
  row with the given data whose version number is one more than that of the current
  version, and this row is the current version afterwards (also when the reference
  tracker raises after the write); on an object without rows it raises
  \<open>ObjectDoesNotExistError\<close> and changes nothing.
\<close>

theorem update_object_increments_version:
  assumes "reachable st"
  shows "(get_object oid None st = Inr current \<longrightarrow>
           (\<exists>new. objects_table (snd (update_object oid dat uid st)) = objects_table st @ [new] \<and>
                  object_id new = oid \<and> version_id new = version_id current + 1 \<and>
                  data new = dat \<and>
                  get_object oid None (snd (update_object oid dat uid st)) = Inr new)) \<and>
         ((\<forall>r \<in> set (objects_table st). object_id r \<noteq> oid) \<longrightarrow>
            update_object oid dat uid st = (Inl ObjectDoesNotExistError, st))"
proof (intro conjI impI)
  from assms have inv: "store_invariant st" by (rule reachable_invariant)
  assume "get_object oid None st = Inr current"
  then have cur: "Objects_get_current_object oid st = Some current"
    by (simp add: get_object_def split: option.splits)
  from update_object_present [OF inv cur, of dat uid]
  obtain new where tab: "objects_table (snd (update_object oid dat uid st)) = objects_table st @ [new]"
    and new: "object_id new = oid" "version_id new = version_id current + 1" "data new = dat"
    and inv': "store_invariant (snd (update_object oid dat uid st))" by blast
  from current_after_append [OF inv' tab] new(1)
  have "get_object oid None (snd (update_object oid dat uid st)) = Inr new"
    by (simp add: get_object_def)
  with tab new show "\<exists>new. objects_table (snd (update_object oid dat uid st)) = objects_table st @ [new] \<and>
                  object_id new = oid \<and> version_id new = version_id current + 1 \<and>
                  data new = dat \<and>
                  get_object oid None (snd (update_object oid dat uid st)) = Inr new" by blast
next
  assume "\<forall>r \<in> set (objects_table st). object_id r \<noteq> oid"
  then have "Objects_get_current_object oid st = None" by (simp add: current_object_None)
  then show "update_object oid dat uid st = (Inl ObjectDoesNotExistError, st)"
    by (rule update_object_absent)
qed

theorem update_object_increments_version_witness:
  "get_object 1 None example_created = Inr (example_version 0 (example_reference 5)) \<and>
   objects_table (snd (update_object 1 (example_reference 7) 1 example_created)) =
     objects_table example_created @ [example_version 1 (example_reference 7)] \<and>
   version_id (example_version 1 (example_reference 7)) =
     version_id (example_version 0 (example_reference 5)) + 1 \<and>
   get_object 1 None (snd (update_object 1 (example_reference 7) 1 example_created)) =
     Inr (example_version 1 (example_reference 7)) \<and>
   update_object 2 (example_reference 7) 1 example_created =
     (Inl ObjectDoesNotExistError, example_created)"
proof -
  have g: "get_object 1 None example_created = Inr (example_version 0 (example_reference 5))"
    by (simp add: store_defs example_created_def example_version_def)
  have n: "\<forall>r \<in> set (objects_table example_created). object_id r \<noteq> 2"
    by (simp add: example_created_def example_version_def)
  have u: "snd (update_object 1 (example_reference 7) 1 example_created) = example_updated"
    by (simp add: example_update)
  have t: "objects_table example_updated =
           objects_table example_created @ [example_version 1 (example_reference 7)]"
    by (simp add: example_updated_def example_created_def)
  from update_object_increments_version [OF example_created_reachable, of 1
      "example_version 0 (example_reference 5)" "example_reference 7" 1] g
  obtain new where "objects_table example_updated = objects_table example_created @ [new]"
    and v: "version_id new = version_id (example_version 0 (example_reference 5)) + 1"
    and c: "get_object 1 None example_updated = Inr new"
    unfolding u by blast
  with t have "new = example_version 1 (example_reference 7)" by simp
  with v c u t g
    update_object_increments_version [OF example_created_reachable, of 2 _
      "example_reference 7" 1] n
  show ?thesis by simp
qed

text \<open>
  Claim C7. \<open>create_object\<close> raises \<open>ActionDoesNotExistError\<close> when the action does
  not exist and, the action existing, \<open>UserDoesNotExistError\<close> when the user does not
  exist; whenever the action or the user is missing it raises one of the two and the
  state it leaves is the state it found: no version, no log entry, no reference event and
  no permission has been written.
\<close>

theorem create_object_checks_first:
  "(actions_table st aid = None \<longrightarrow>
      create_object aid dat uid st = (Inl ActionDoesNotExistError, st)) \<and>
   (actions_table st aid \<noteq> None \<and> uid \<notin> users_table st \<longrightarrow>
      create_object aid dat uid st = (Inl UserDoesNotExistError, st)) \<and>
   (actions_table st aid = None \<or> uid \<notin> users_table st \<longrightarrow>
      snd (create_object aid dat uid st) = st \<and>
      (fst (create_object aid dat uid st) = Inl ActionDoesNotExistError \<or>
       fst (create_object aid dat uid st) = Inl UserDoesNotExistError))"
proof (cases "actions_table st aid")
  case None
  then show ?thesis by (simp add: create_object_def get_action_def)
next
  case (Some a)
  then show ?thesis by (simp add: create_object_def get_action_def get_user_def)
qed

theorem create_object_checks_first_witness:
  "create_object 2 (JDict []) 1 example_state = (Inl ActionDoesNotExistError, example_state) \<and>
   create_object 1 (JDict []) 2 example_state = (Inl UserDoesNotExistError, example_state)"
  using create_object_checks_first [of example_state 2 "JDict []" 1]
    create_object_checks_first [of example_state 1 "JDict []" 2]
  by (simp add: example_state_def)

text \<open>
  Claim C8. Once the message is built, \<open>handle_send_mail_task\<close> returns \<open>False\<close>
  (and raises nothing) when the transport raises \<open>SMTPRecipientsRefused\<close>, returns
  \<open>True\<close> when the transport accepts the message, and raises whatever else the
  transport raises.
\<close>

theorem handle_send_mail_task_outcomes:
  assumes "py_getitem dat (JStr ''subject'') = Inr subj"
    and "config ''MAIL_SENDER'' = Some sndr"
    and "py_getitem dat (JStr ''recipients'') = Inr rcpts"
    and "py_getitem dat (JStr ''text'') = Inr txt"
    and "py_getitem dat (JStr ''html'') = Inr htm"
    and "msg = \<lparr>subject = subj, sender = sndr, recipients = rcpts, body = txt, html = htm\<rparr>"
  shows "(mail_send msg = Inl SMTPRecipientsRefused \<longrightarrow>
            handle_send_mail_task mail_send config dat = Inr False) \<and>
         (mail_send msg = Inr () \<longrightarrow>
            handle_send_mail_task mail_send config dat = Inr True) \<and>
         (\<forall>e. mail_send msg = Inl e \<and> e \<noteq> SMTPRecipientsRefused \<longrightarrow>
            handle_send_mail_task mail_send config dat = Inl e)"
  using assms by (simp add: handle_send_mail_task_def send_mail_attempt_def)

theorem handle_send_mail_task_outcomes_witness:
  "handle_send_mail_task (\<lambda>m. Inl SMTPRecipientsRefused)
     [''MAIL_SENDER'' \<mapsto> JStr ''sampledb@example.org''] example_mail_data = Inr False \<and>
   handle_send_mail_task (\<lambda>m. Inr ())
     [''MAIL_SENDER'' \<mapsto> JStr ''sampledb@example.org''] example_mail_data = Inr True \<and>
   handle_send_mail_task (\<lambda>m. Inl (OtherException ''SMTPServerDisconnected''))
     [''MAIL_SENDER'' \<mapsto> JStr ''sampledb@example.org''] example_mail_data
       = Inl (OtherException ''SMTPServerDisconnected'')"
proof -
  let ?config = "[''MAIL_SENDER'' \<mapsto> JStr ''sampledb@example.org'']"
  have 1: "py_getitem example_mail_data (JStr ''subject'') = Inr (JStr ''Hello'')"
    and 2: "?config ''MAIL_SENDER'' = Some (JStr ''sampledb@example.org'')"
    and 3: "py_getitem example_mail_data (JStr ''recipients'') = Inr (JList [JStr ''someone@example.org''])"
    and 4: "py_getitem example_mail_data (JStr ''text'') = Inr (JStr ''text body'')"
    and 5: "py_getitem example_mail_data (JStr ''html'') = Inr (JStr ''<p>html body</p>'')"
    by (simp_all add: example_mail_data_def)
  have 6: "example_message = \<lparr>subject = JStr ''Hello'', sender = JStr ''sampledb@example.org'',
      recipients = JList [JStr ''someone@example.org''], body = JStr ''text body'',
      html = JStr ''<p>html body</p>''\<rparr>"
    by (simp add: example_message_def)
  note t = handle_send_mail_task_outcomes [where config = ?config and dat = example_mail_data, OF 1 2 3 4 5 6]
  from t [of "\<lambda>m. Inl SMTPRecipientsRefused"] t [of "\<lambda>m. Inr ()"]
    t [of "\<lambda>m. Inl (OtherException ''SMTPServerDisconnected'')"]
  show ?thesis by simp
qed

text \<open>
  Claim C9. \<open>restore_object_version\<close> never runs the reference tracker: whatever the
  state and the arguments, the object log afterwards is the log before, followed by at
  most the one restore entry of the restored object; no "used in measurement" entry is
  added. In the example, restoring version 0 (which references sample 5, while the
  current version references sample 7) writes the restore entry only, whereas
  \<open>update_object\<close> with the same data also writes the event for sample 5.
\<close>

theorem restore_object_version_no_reference_event:
  "(object_log (snd (restore_object_version oid vid uid st)) = object_log st \<or>
    (\<exists>n. object_log (snd (restore_object_version oid vid uid st)) =
           object_log st @ [OL_RESTORE_OBJECT_VERSION oid uid vid n])) \<and>
   filter is_use_object_in_measurement (object_log (snd (restore_object_version oid vid uid st))) =
     filter is_use_object_in_measurement (object_log st) \<and>
   object_log (snd (restore_object_version 1 0 1 example_updated)) =
     object_log example_updated @ [OL_RESTORE_OBJECT_VERSION 1 1 0 2] \<and>
   object_log (snd (update_object 1 (example_reference 5) 1 example_updated)) =
     object_log example_updated @
       [OL_EDIT_OBJECT 1 1 2, OL_USE_OBJECT_IN_MEASUREMENT (JInt 5) 1 1]"
proof -
  have shape: "object_log (snd (restore_object_version oid vid uid st)) = object_log st \<or>
    (\<exists>n. object_log (snd (restore_object_version oid vid uid st)) =
           object_log st @ [OL_RESTORE_OBJECT_VERSION oid uid vid n])"
    by (auto simp: restore_object_version_def Objects_update_object_def Let_def log_defs
        split: sum.splits option.splits prod.splits)
  then have "filter is_use_object_in_measurement
       (object_log (snd (restore_object_version oid vid uid st))) =
     filter is_use_object_in_measurement (object_log st)"
    by auto
  moreover have "object_log (snd (restore_object_version 1 0 1 example_updated)) =
     object_log example_updated @ [OL_RESTORE_OBJECT_VERSION 1 1 0 2]"
    by (simp add: example_restore)
  moreover have "object_log (snd (update_object 1 (example_reference 5) 1 example_updated)) =
     object_log example_updated @
       [OL_EDIT_OBJECT 1 1 2, OL_USE_OBJECT_IN_MEASUREMENT (JInt 5) 1 1]"
    by (simp add: update_object_def store_defs log_defs tracker_defs example_defs example_updated_def)
  ultimately show ?thesis using shape by blast
qed

text \<open>
  Claim C10. The constructor of \<open>ObjectShare\<close> never assigns \<open>utc_datetime\<close> from
  its argument: given a timestamp it leaves the attribute unassigned, given \<open>None\<close> it
  assigns the current UTC time; the other three attributes are the arguments.
\<close>

theorem ObjectShare_init_utc_datetime:
  "share_utc_datetime (ObjectShare_init utcnow oid cid pol (Some t)) = None \<and>
   share_utc_datetime (ObjectShare_init utcnow oid cid pol None) = Some utcnow \<and>
   share_object_id (ObjectShare_init utcnow oid cid pol arg) = oid \<and>
   share_component_id (ObjectShare_init utcnow oid cid pol arg) = cid \<and>
   share_policy (ObjectShare_init utcnow oid cid pol arg) = pol"
  by (simp add: ObjectShare_init_def)

end
